theory Spec2Isabelle
  imports Main "HOL-Library.Word" "HOL-Library.Log_Nat"
begin

unbundle bit_operations_syntax

section \<open>The assembler engine: data model\<close>

text \<open>
  The engine is the TypeScript module \<^verbatim>\<open>asmEngine\<close>: \<^verbatim>\<open>reset\<close>, \<^verbatim>\<open>parseOperand\<close>,
  \<^verbatim>\<open>assemble\<close>, \<^verbatim>\<open>resolveOperand\<close>, \<^verbatim>\<open>setFlags\<close>, \<^verbatim>\<open>step\<close> and \<^verbatim>\<open>run\<close>.

  Scope of the embedding.
  \<^item> A JavaScript \<^verbatim>\<open>number\<close> is modelled by an \<open>int\<close>: the finite, integer-valued doubles.
    Sums, differences and products are rounded to 53 significant bits as IEEE-754 does
    (\<open>dbl\<close> below), and so is the quotient of \<^verbatim>\<open>DIV\<close> before its floor is taken (\<open>floorDiv\<close>);
    magnitudes from \<open>2 ^ 1024\<close> on (Infinity) and NaN are outside the model.
  \<^item> \<^verbatim>\<open>Int32Array(8)\<close> is a function from a 3-bit index to a 32-bit word; a store converts
    with ToInt32 (\<open>word_of_int\<close>), a load reads the word as two's complement (\<open>sint\<close>).
  \<^item> A \<^verbatim>\<open>DataView\<close> is the list of its bytes; its accessors raise RangeError outside it.
  \<^item> An operand of type \<^verbatim>\<open>'reg'\<close> holds one of the ten values of the table \<^verbatim>\<open>REGISTERS\<close>,
    which is all that \<^verbatim>\<open>parseOperand\<close> builds; the type \<open>regidx\<close> has exactly these.
  \<^item> The label table is an association list, the latest binding first; label names that
    are members of \<^verbatim>\<open>Object.prototype\<close> are outside the model. Source text is ASCII.
  \<^item> A step whose result is outside these values ends with \<open>Unmodelled\<close>: a sum, difference
    or product that overflows to Infinity, and \<^verbatim>\<open>LEA\<close> from a \<^verbatim>\<open>[name]\<close> operand where the string
    \<^verbatim>\<open>name\<close> would be stored in SP or BP or could read as a number.
  \<^item> \<^verbatim>\<open>console.log\<close> output is not part of the state.
\<close>

subsection \<open>Numbers\<close>

definition dbl :: "int \<Rightarrow> int" where
  "dbl x =
     (if \<bar>x\<bar> \<le> 2 ^ 53 then x
      else let e = nat (bitlen \<bar>x\<bar> - 53);
               q = \<bar>x\<bar> div 2 ^ e;
               r = \<bar>x\<bar> mod 2 ^ e;
               h = 2 ^ (e - 1);
               q' = (if h < r \<or> (r = h \<and> odd q) then q + 1 else q)
           in sgn x * q' * 2 ^ e)"

text \<open>
  The largest double is \<open>2 ^ 1024 - 2 ^ 971\<close>; a value from \<open>2 ^ 1024 - 2 ^ 970\<close> on, half a
  unit above it, rounds to Infinity.
\<close>

definition overflows :: "int \<Rightarrow> bool" where
  "overflows x = (2 ^ 1024 - 2 ^ 970 \<le> \<bar>x\<bar>)"

text \<open>
  \<^verbatim>\<open>Math.floor(a / b)\<close> for integers \<open>a\<close> and \<open>b \<noteq> 0\<close>. The quotient of two doubles is the exact
  quotient rounded to 53 significant bits, ties to even: with \<open>e\<close> the binary exponent of
  \<open>\<bar>a\<bar> / \<bar>b\<bar>\<close>, which \<open>ilog2q\<close> computes from the bit lengths, the quotient scaled by
  \<open>2 ^ (52 - e)\<close> is rounded to the integer \<open>n\<close>, and the double is \<open>n * 2 ^ (e - 52)\<close> with the
  sign of the quotient. Its floor is exact. The quotient is never 0 when \<open>a\<close> is not, and
  never Infinity.
\<close>

definition ilog2q :: "int \<Rightarrow> int \<Rightarrow> int" where
  "ilog2q A B =
     (let d = bitlen A - bitlen B
      in if B * 2 ^ nat d \<le> A * 2 ^ nat (- d) then d else d - 1)"

definition floorDiv :: "int \<Rightarrow> int \<Rightarrow> int" where
  "floorDiv a b =
     (if a = 0 then 0
      else let e = ilog2q \<bar>a\<bar> \<bar>b\<bar>;
               num = \<bar>a\<bar> * 2 ^ nat (52 - e);
               den = \<bar>b\<bar> * 2 ^ nat (e - 52);
               q = num div den;
               r = num mod den;
               n = (if den < 2 * r \<or> (2 * r = den \<and> odd q) then q + 1 else q)
           in (sgn a * sgn b * n * 2 ^ nat (e - 52)) div 2 ^ nat (52 - e))"

definition ToInt32 :: "int \<Rightarrow> int" where
  "ToInt32 v = sint (word_of_int v :: 32 word)"

definition RAM_SIZE :: int where
  "RAM_SIZE = 4096"

subsection \<open>Records of the engine\<close>

record Flags =
  ZF :: bool
  NF :: bool
  CF :: bool
  OF :: bool

record CPU =
  R :: "3 word \<Rightarrow> 32 word"
  SP :: int
  BP :: int
  IP :: int
  F :: Flags
  halted :: bool

datatype regidx = GPR "3 word" | RSP | RBP

datatype Operand =
    Reg regidx
  | Imm int
  | Mem int "int option"
  | MemLabel string
  | Label string

record Instruction =
  op :: string
  operands :: "Operand list"
  line :: int
  source :: string

type_synonym labeltab = "(string \<times> int) list"

record Program =
  lines :: "string list"
  ast :: "Instruction list"
  labels :: labeltab
  dataSection :: "8 word list"
  textStart :: int

datatype errmsg =
    RequiresOperands string nat
  | UndefinedLabel string
  | DestMustBeRegister string
  | StoreDestMustBeMemory
  | AccessOutOfBounds int
  | StoreOutOfBounds int
  | DivisionByZero
  | UnknownSyscall int
  | StackOverflow
  | StackUnderflow
  | UnknownInstruction string
  | RangeError
  | TypeErrorMsg
  | OrgRequiresAddress
  | InvalidOrgAddress
  | InvalidWordValue
  | InvalidByteValue
  | InvalidImmediate string
  | InvalidRegister string

datatype exn = AsmError int errmsg | JsTypeError | Unmodelled

text \<open>The value of a register operand in the table \<^verbatim>\<open>REGISTERS\<close>.\<close>

fun regnum :: "regidx \<Rightarrow> int" where
  "regnum (GPR i) = uint i"
| "regnum RSP = - 1"
| "regnum RBP = - 2"

definition reset :: CPU where
  "reset = \<lparr> R = (\<lambda>_. 0), SP = RAM_SIZE - 4, BP = RAM_SIZE - 4, IP = 0,
             F = \<lparr> ZF = False, NF = False, CF = False, OF = False \<rparr>, halted = False \<rparr>"

subsection \<open>Memory: the DataView\<close>

type_synonym ram = "8 word list"

definition le32 :: "8 word \<Rightarrow> 8 word \<Rightarrow> 8 word \<Rightarrow> 8 word \<Rightarrow> int" where
  "le32 b0 b1 b2 b3 = ToInt32 (uint b0 + 256 * uint b1 + 65536 * uint b2 + 16777216 * uint b3)"

definition byte_of :: "int \<Rightarrow> nat \<Rightarrow> 8 word" where
  "byte_of v k = word_of_int (v div 2 ^ (8 * k))"

definition getInt32 :: "ram \<Rightarrow> int \<Rightarrow> errmsg + int" where
  "getInt32 ram addr =
     (if addr < 0 \<or> int (length ram) < addr + 4 then Inl RangeError
      else let i = nat addr in Inr (le32 (ram ! i) (ram ! (i + 1)) (ram ! (i + 2)) (ram ! (i + 3))))"

definition setInt32 :: "ram \<Rightarrow> int \<Rightarrow> int \<Rightarrow> errmsg + ram" where
  "setInt32 ram addr v =
     (if addr < 0 \<or> int (length ram) < addr + 4 then Inl RangeError
      else let i = nat addr in
        Inr (ram[i := byte_of v 0, i + 1 := byte_of v 1, i + 2 := byte_of v 2, i + 3 := byte_of v 3]))"

definition getUint8 :: "ram \<Rightarrow> int \<Rightarrow> errmsg + int" where
  "getUint8 ram addr =
     (if addr < 0 \<or> int (length ram) \<le> addr then Inl RangeError
      else Inr (uint (ram ! nat addr)))"

text \<open>ToIndex of an address that is \<^verbatim>\<open>undefined\<close> or NaN (\<open>None\<close>) is 0.\<close>

definition toIndex :: "int option \<Rightarrow> int" where
  "toIndex a = (case a of None \<Rightarrow> 0 | Some n \<Rightarrow> n)"

subsection \<open>Registers, operands and flags\<close>

fun readReg :: "CPU \<Rightarrow> regidx \<Rightarrow> int" where
  "readReg cpu RSP = SP cpu"
| "readReg cpu RBP = BP cpu"
| "readReg cpu (GPR i) = sint (R cpu i)"

fun writeReg :: "CPU \<Rightarrow> regidx \<Rightarrow> int \<Rightarrow> CPU" where
  "writeReg cpu RSP v = cpu\<lparr>SP := v\<rparr>"
| "writeReg cpu RBP v = cpu\<lparr>BP := v\<rparr>"
| "writeReg cpu (GPR i) v = cpu\<lparr>R := (R cpu)(i := word_of_int v)\<rparr>"

text \<open>
  The address of a \<^verbatim>\<open>'mem'\<close> operand with a numeric value. A negative value selects the
  register-indirect branch: \<open>-1\<close> is SP, \<open>-2\<close> is BP, any other negative index reads
  \<^verbatim>\<open>cpu.R\<close> out of range, which is \<^verbatim>\<open>undefined\<close> (\<open>None\<close>). The offset is added when it is
  truthy. A value from 0 on is an absolute address, the offset unused.
\<close>

definition memAddr :: "CPU \<Rightarrow> int \<Rightarrow> int option \<Rightarrow> int option" where
  "memAddr cpu v off =
     (if v < 0 then
        (let base = (if v = - 1 then Some (SP cpu) else if v = - 2 then Some (BP cpu) else None)
         in case off of
              None \<Rightarrow> base
            | Some d \<Rightarrow> if d = 0 then base else map_option (\<lambda>b. dbl (b + d)) base)
      else Some v)"

definition outOfBounds :: "int option \<Rightarrow> bool" where
  "outOfBounds a = (case a of None \<Rightarrow> False | Some n \<Rightarrow> n < 0 \<or> RAM_SIZE - 3 \<le> n)"

definition lookupLabel :: "labeltab \<Rightarrow> string \<Rightarrow> errmsg + int" where
  "lookupLabel labs s = (case map_of labs s of None \<Rightarrow> Inl (UndefinedLabel s) | Some a \<Rightarrow> Inr a)"

definition readMem :: "ram \<Rightarrow> int option \<Rightarrow> errmsg + int" where
  "readMem ram a =
     (if outOfBounds a then Inl (AccessOutOfBounds (toIndex a)) else getInt32 ram (toIndex a))"

fun resolveOperand :: "Operand \<Rightarrow> CPU \<Rightarrow> ram \<Rightarrow> labeltab \<Rightarrow> errmsg + int" where
  "resolveOperand (Imm n) cpu ram labs = Inr n"
| "resolveOperand (Reg r) cpu ram labs = Inr (readReg cpu r)"
| "resolveOperand (MemLabel s) cpu ram labs =
     (case lookupLabel labs s of Inl e \<Rightarrow> Inl e | Inr a \<Rightarrow> readMem ram (Some a))"
| "resolveOperand (Mem v off) cpu ram labs = readMem ram (memAddr cpu v off)"
| "resolveOperand (Label s) cpu ram labs = lookupLabel labs s"

datatype flagop = FAdd | FSub | FMul | FDiv | FCmp | FLogic

definition setFlags :: "CPU \<Rightarrow> int \<Rightarrow> flagop \<Rightarrow> CPU" where
  "setFlags cpu result operation =
     (let f1 = (F cpu)\<lparr>ZF := (result = 0), NF := (result < 0)\<rparr>;
          f2 = (if operation = FAdd \<or> operation = FSub
                then f1\<lparr>CF := (2147483647 < \<bar>result\<bar>),
                        OF := (2147483647 < result \<or> result < - 2147483648)\<rparr>
                else f1)
      in cpu\<lparr>F := f2\<rparr>)"


section \<open>The execution engine\<close>

text \<open>
  How the body of the \<^verbatim>\<open>try\<close> block of \<^verbatim>\<open>step\<close> ends: \<^verbatim>\<open>break\<close> (then \<^verbatim>\<open>cpu.IP++\<close>),
  \<^verbatim>\<open>return\<close>, or a thrown error, which the \<^verbatim>\<open>catch\<close> wraps into an \<^verbatim>\<open>AsmError\<close> with the
  line of the instruction. The CPU and the memory are mutated in place, so each case
  carries the state as it is at that moment.
\<close>

datatype flow = Break | Return | Throw errmsg | OutsideModel

type_synonym effect = "flow \<times> CPU \<times> ram"

definition exec_MOV :: "Operand list \<Rightarrow> CPU \<Rightarrow> Program \<Rightarrow> ram \<Rightarrow> effect" where
  "exec_MOV ops cpu program ram =
     (if length ops \<noteq> 2 then (Throw (RequiresOperands ''MOV'' 2), cpu, ram)
      else case (case ops ! 1 of
                   Label s \<Rightarrow> lookupLabel (labels program) s
                 | _ \<Rightarrow> resolveOperand (ops ! 1) cpu ram (labels program)) of
             Inl e \<Rightarrow> (Throw e, cpu, ram)
           | Inr src \<Rightarrow>
               (case ops ! 0 of
                  Reg r \<Rightarrow> (Break, writeReg cpu r src, ram)
                | _ \<Rightarrow> (Throw (DestMustBeRegister ''MOV''), cpu, ram)))"

definition exec_LOAD :: "Operand list \<Rightarrow> CPU \<Rightarrow> Program \<Rightarrow> ram \<Rightarrow> effect" where
  "exec_LOAD ops cpu program ram =
     (if length ops \<noteq> 2 then (Throw (RequiresOperands ''LOAD'' 2), cpu, ram)
      else case (case ops ! 1 of
                   MemLabel s \<Rightarrow>
                     (case lookupLabel (labels program) s of
                        Inl e \<Rightarrow> Inl e
                      | Inr addr \<Rightarrow>
                          if addr < 0 \<or> RAM_SIZE - 3 \<le> addr then Inl (AccessOutOfBounds addr)
                          else getInt32 ram addr)
                 | _ \<Rightarrow> resolveOperand (ops ! 1) cpu ram (labels program)) of
             Inl e \<Rightarrow> (Throw e, cpu, ram)
           | Inr v \<Rightarrow>
               (case ops ! 0 of
                  Reg r \<Rightarrow> (Break, writeReg cpu r v, ram)
                | _ \<Rightarrow> (Throw (DestMustBeRegister ''LOAD''), cpu, ram)))"

text \<open>
  The destination address of \<^verbatim>\<open>STORE\<close>. A label that the table does not hold gives
  \<^verbatim>\<open>undefined\<close> here (there is no check), as an out-of-range register index does.
\<close>

fun storeAddr :: "Operand \<Rightarrow> CPU \<Rightarrow> labeltab \<Rightarrow> int option option" where
  "storeAddr (MemLabel s) cpu labs = Some (map_of labs s)"
| "storeAddr (Mem v off) cpu labs = Some (memAddr cpu v off)"
| "storeAddr _ cpu labs = None"

definition exec_STORE :: "Operand list \<Rightarrow> CPU \<Rightarrow> Program \<Rightarrow> ram \<Rightarrow> effect" where
  "exec_STORE ops cpu program ram =
     (if length ops \<noteq> 2 then (Throw (RequiresOperands ''STORE'' 2), cpu, ram)
      else case resolveOperand (ops ! 1) cpu ram (labels program) of
             Inl e \<Rightarrow> (Throw e, cpu, ram)
           | Inr v \<Rightarrow>
               (case storeAddr (ops ! 0) cpu (labels program) of
                  None \<Rightarrow> (Throw StoreDestMustBeMemory, cpu, ram)
                | Some addr \<Rightarrow>
                    if outOfBounds addr then (Throw (StoreOutOfBounds (toIndex addr)), cpu, ram)
                    else (case setInt32 ram (toIndex addr) v of
                            Inl e \<Rightarrow> (Throw e, cpu, ram)
                          | Inr ram' \<Rightarrow> (Break, cpu, ram'))))"

text \<open>
  \<^verbatim>\<open>ADD\<close>, \<^verbatim>\<open>SUB\<close> and \<^verbatim>\<open>MUL\<close> are three copies of one block in the source, which differ in
  the name, the operator and the operation given to \<^verbatim>\<open>setFlags\<close>. The result is the
  JavaScript number, a double; the register write converts it. A result that would be
  Infinity is outside the model.
\<close>

definition exec_arith ::
  "string \<Rightarrow> (int \<Rightarrow> int \<Rightarrow> int) \<Rightarrow> flagop \<Rightarrow> Operand list \<Rightarrow> CPU \<Rightarrow> Program \<Rightarrow> ram \<Rightarrow> effect" where
  "exec_arith name f fo ops cpu program ram =
     (if length ops \<noteq> 2 then (Throw (RequiresOperands name 2), cpu, ram)
      else case resolveOperand (ops ! 1) cpu ram (labels program) of
             Inl e \<Rightarrow> (Throw e, cpu, ram)
           | Inr src \<Rightarrow>
               (case ops ! 0 of
                  Reg r \<Rightarrow>
                    (let current = readReg cpu r;
                         result = dbl (f current src)
                     in if overflows (f current src) then (OutsideModel, cpu, ram)
                        else (Break, setFlags (writeReg cpu r result) result fo, ram))
                | _ \<Rightarrow> (Throw (DestMustBeRegister name), cpu, ram)))"

text \<open>
  \<^verbatim>\<open>DIV\<close> sets the carry flag before it raises the division by zero, and stores
  \<^verbatim>\<open>Math.floor(current / src)\<close>.
\<close>

definition exec_DIV :: "Operand list \<Rightarrow> CPU \<Rightarrow> Program \<Rightarrow> ram \<Rightarrow> effect" where
  "exec_DIV ops cpu program ram =
     (if length ops \<noteq> 2 then (Throw (RequiresOperands ''DIV'' 2), cpu, ram)
      else case resolveOperand (ops ! 1) cpu ram (labels program) of
             Inl e \<Rightarrow> (Throw e, cpu, ram)
           | Inr src \<Rightarrow>
               if src = 0 then (Throw DivisionByZero, cpu\<lparr>F := (F cpu)\<lparr>CF := True\<rparr>\<rparr>, ram)
               else (case ops ! 0 of
                  Reg r \<Rightarrow>
                    (let current = readReg cpu r;
                         result = floorDiv current src
                     in (Break, setFlags (writeReg cpu r result) result FDiv, ram))
                | _ \<Rightarrow> (Throw (DestMustBeRegister ''DIV''), cpu, ram)))"

definition exec_CMP :: "Operand list \<Rightarrow> CPU \<Rightarrow> Program \<Rightarrow> ram \<Rightarrow> effect" where
  "exec_CMP ops cpu program ram =
     (if length ops \<noteq> 2 then (Throw (RequiresOperands ''CMP'' 2), cpu, ram)
      else case resolveOperand (ops ! 0) cpu ram (labels program) of
             Inl e \<Rightarrow> (Throw e, cpu, ram)
           | Inr a \<Rightarrow>
               (case resolveOperand (ops ! 1) cpu ram (labels program) of
                  Inl e \<Rightarrow> (Throw e, cpu, ram)
                | Inr b \<Rightarrow> (Break, setFlags cpu (dbl (a - b)) FCmp, ram)))"

text \<open>
  A jump resolves \<^verbatim>\<open>operands[0]\<close>. The conditional jumps do not check the arity: with no
  operand, \<^verbatim>\<open>resolveOperand\<close> reads \<^verbatim>\<open>type\<close> of \<^verbatim>\<open>undefined\<close>, a TypeError inside the \<^verbatim>\<open>try\<close>.
\<close>

definition jumpTo :: "Operand list \<Rightarrow> CPU \<Rightarrow> Program \<Rightarrow> ram \<Rightarrow> effect" where
  "jumpTo ops cpu program ram =
     (case ops of
        [] \<Rightarrow> (Throw TypeErrorMsg, cpu, ram)
      | x # _ \<Rightarrow>
          (case resolveOperand x cpu ram (labels program) of
             Inl e \<Rightarrow> (Throw e, cpu, ram)
           | Inr target \<Rightarrow> (Return, cpu\<lparr>IP := target\<rparr>, ram)))"

definition exec_JMP :: "Operand list \<Rightarrow> CPU \<Rightarrow> Program \<Rightarrow> ram \<Rightarrow> effect" where
  "exec_JMP ops cpu program ram =
     (if length ops \<noteq> 1 then (Throw (RequiresOperands ''JMP'' 1), cpu, ram)
      else jumpTo ops cpu program ram)"

definition exec_Jcc :: "bool \<Rightarrow> Operand list \<Rightarrow> CPU \<Rightarrow> Program \<Rightarrow> ram \<Rightarrow> effect" where
  "exec_Jcc taken ops cpu program ram =
     (if taken then jumpTo ops cpu program ram else (Break, cpu, ram))"

definition exec_unary ::
  "string \<Rightarrow> int \<Rightarrow> flagop \<Rightarrow> Operand list \<Rightarrow> CPU \<Rightarrow> Program \<Rightarrow> ram \<Rightarrow> effect" where
  "exec_unary name d fo ops cpu program ram =
     (if length ops \<noteq> 1 then (Throw (RequiresOperands name 1), cpu, ram)
      else case ops ! 0 of
             Reg r \<Rightarrow>
               (let current = readReg cpu r;
                    result = dbl (current + d)
                in if overflows (current + d) then (OutsideModel, cpu, ram)
                   else (Break, setFlags (writeReg cpu r result) result fo, ram))
           | _ \<Rightarrow> (Throw (DestMustBeRegister name), cpu, ram))"

text \<open>
  \<^verbatim>\<open>LEA\<close> takes \<^verbatim>\<open>operands[1].value as number\<close> unless the operand is a label: for a
  register operand that is its number in \<^verbatim>\<open>REGISTERS\<close>, for \<^verbatim>\<open>[name]\<close> it is the string
  \<^verbatim>\<open>name\<close>. Stored in one of R0 to R7 the string is converted to a number and then to 32
  bits: a string that starts with a letter or an underscore is \<^verbatim>\<open>Infinity\<close> or no numeric
  literal at all, so it converts to Infinity or NaN, and the register receives 0. Any other
  string, and a destination SP or BP (which would hold the string itself), is outside the
  model.
\<close>

definition nanString :: "string \<Rightarrow> bool" where
  "nanString s =
     (case s of
        [] \<Rightarrow> False
      | c # _ \<Rightarrow>
          (65 \<le> (of_char c :: nat) \<and> (of_char c :: nat) \<le> 90)
          \<or> (97 \<le> (of_char c :: nat) \<and> (of_char c :: nat) \<le> 122)
          \<or> c = CHR ''_'')"

definition exec_LEA :: "Operand list \<Rightarrow> CPU \<Rightarrow> Program \<Rightarrow> ram \<Rightarrow> effect" where
  "exec_LEA ops cpu program ram =
     (if length ops \<noteq> 2 then (Throw (RequiresOperands ''LEA'' 2), cpu, ram)
      else case ops ! 0 of
             Reg r \<Rightarrow>
               (case ops ! 1 of
                  Label s \<Rightarrow>
                    (case lookupLabel (labels program) s of
                       Inl e \<Rightarrow> (Throw e, cpu, ram)
                     | Inr addr \<Rightarrow> (Break, writeReg cpu r addr, ram))
                | Reg r' \<Rightarrow> (Break, writeReg cpu r (regnum r'), ram)
                | Imm n \<Rightarrow> (Break, writeReg cpu r n, ram)
                | Mem v off \<Rightarrow> (Break, writeReg cpu r v, ram)
                | MemLabel s \<Rightarrow>
                    (case r of
                       GPR k \<Rightarrow>
                         if nanString s then (Break, writeReg cpu r 0, ram)
                         else (OutsideModel, cpu, ram)
                     | _ \<Rightarrow> (OutsideModel, cpu, ram)))
           | _ \<Rightarrow> (Throw (DestMustBeRegister ''LEA''), cpu, ram))"

text \<open>Syscall 2 reads up to 256 bytes from the address in R1, up to a zero byte.\<close>

fun scanStr :: "ram \<Rightarrow> int \<Rightarrow> nat \<Rightarrow> errmsg option" where
  "scanStr ram a 0 = None"
| "scanStr ram a (Suc n) =
     (case getUint8 ram a of
        Inl e \<Rightarrow> Some e
      | Inr b \<Rightarrow> if b = 0 then None else scanStr ram (a + 1) n)"

definition exec_SYS :: "Operand list \<Rightarrow> CPU \<Rightarrow> Program \<Rightarrow> ram \<Rightarrow> effect" where
  "exec_SYS ops cpu program ram =
     (if length ops \<noteq> 1 then (Throw (RequiresOperands ''SYS'' 1), cpu, ram)
      else case resolveOperand (ops ! 0) cpu ram (labels program) of
             Inl e \<Rightarrow> (Throw e, cpu, ram)
           | Inr syscall \<Rightarrow>
               if syscall = 1 then (Break, cpu, ram)
               else if syscall = 2 then
                 (case scanStr ram (sint (R cpu 1)) 256 of
                    Some e \<Rightarrow> (Throw e, cpu, ram)
                  | None \<Rightarrow> (Break, cpu, ram))
               else if syscall = 3 then (Break, cpu\<lparr>halted := True\<rparr>, ram)
               else (Throw (UnknownSyscall syscall), cpu, ram))"

definition exec_PUSH :: "Operand list \<Rightarrow> CPU \<Rightarrow> Program \<Rightarrow> ram \<Rightarrow> effect" where
  "exec_PUSH ops cpu program ram =
     (if length ops \<noteq> 1 then (Throw (RequiresOperands ''PUSH'' 1), cpu, ram)
      else case resolveOperand (ops ! 0) cpu ram (labels program) of
             Inl e \<Rightarrow> (Throw e, cpu, ram)
           | Inr v \<Rightarrow>
               (let cpu1 = cpu\<lparr>SP := dbl (SP cpu - 4)\<rparr> in
                if SP cpu1 < 0 then (Throw StackOverflow, cpu1, ram)
                else case setInt32 ram (SP cpu1) v of
                       Inl e \<Rightarrow> (Throw e, cpu1, ram)
                     | Inr ram' \<Rightarrow> (Break, cpu1, ram')))"

definition exec_POP :: "Operand list \<Rightarrow> CPU \<Rightarrow> Program \<Rightarrow> ram \<Rightarrow> effect" where
  "exec_POP ops cpu program ram =
     (if length ops \<noteq> 1 then (Throw (RequiresOperands ''POP'' 1), cpu, ram)
      else if RAM_SIZE - 4 \<le> SP cpu then (Throw StackUnderflow, cpu, ram)
      else case getInt32 ram (SP cpu) of
             Inl e \<Rightarrow> (Throw e, cpu, ram)
           | Inr v \<Rightarrow>
               (let cpu1 = cpu\<lparr>SP := dbl (SP cpu + 4)\<rparr> in
                case ops ! 0 of
                  Reg r \<Rightarrow> (Break, writeReg cpu1 r v, ram)
                | _ \<Rightarrow> (Throw (DestMustBeRegister ''POP''), cpu1, ram)))"

definition exec_CALL :: "Operand list \<Rightarrow> CPU \<Rightarrow> Program \<Rightarrow> ram \<Rightarrow> effect" where
  "exec_CALL ops cpu program ram =
     (if length ops \<noteq> 1 then (Throw (RequiresOperands ''CALL'' 1), cpu, ram)
      else case resolveOperand (ops ! 0) cpu ram (labels program) of
             Inl e \<Rightarrow> (Throw e, cpu, ram)
           | Inr target \<Rightarrow>
               (let cpu1 = cpu\<lparr>SP := dbl (SP cpu - 4)\<rparr> in
                if SP cpu1 < 0 then (Throw StackOverflow, cpu1, ram)
                else case setInt32 ram (SP cpu1) (IP cpu1 + 1) of
                       Inl e \<Rightarrow> (Throw e, cpu1, ram)
                     | Inr ram' \<Rightarrow> (Return, cpu1\<lparr>IP := target\<rparr>, ram')))"

definition exec_RET :: "Operand list \<Rightarrow> CPU \<Rightarrow> Program \<Rightarrow> ram \<Rightarrow> effect" where
  "exec_RET ops cpu program ram =
     (if RAM_SIZE - 4 \<le> SP cpu then (Throw StackUnderflow, cpu, ram)
      else case getInt32 ram (SP cpu) of
             Inl e \<Rightarrow> (Throw e, cpu, ram)
           | Inr v \<Rightarrow> (Return, cpu\<lparr>IP := v, SP := dbl (SP cpu + 4)\<rparr>, ram))"

text \<open>The \<^verbatim>\<open>switch\<close> on the opcode, its cases in the order of the source.\<close>

definition exec :: "Instruction \<Rightarrow> CPU \<Rightarrow> Program \<Rightarrow> ram \<Rightarrow> effect" where
  "exec ins cpu program ram =
     (let ops = operands ins; fl = F cpu in
      if op ins = ''NOP'' then (Break, cpu, ram)
      else if op ins = ''HALT'' then (Return, cpu\<lparr>halted := True\<rparr>, ram)
      else if op ins = ''MOV'' then exec_MOV ops cpu program ram
      else if op ins = ''LOAD'' then exec_LOAD ops cpu program ram
      else if op ins = ''STORE'' then exec_STORE ops cpu program ram
      else if op ins = ''ADD'' then exec_arith ''ADD'' (\<lambda>a b. a + b) FAdd ops cpu program ram
      else if op ins = ''SUB'' then exec_arith ''SUB'' (\<lambda>a b. a - b) FSub ops cpu program ram
      else if op ins = ''MUL'' then exec_arith ''MUL'' (\<lambda>a b. a * b) FMul ops cpu program ram
      else if op ins = ''DIV'' then exec_DIV ops cpu program ram
      else if op ins = ''CMP'' then exec_CMP ops cpu program ram
      else if op ins = ''JMP'' then exec_JMP ops cpu program ram
      else if op ins = ''JZ'' then exec_Jcc (ZF fl) ops cpu program ram
      else if op ins = ''JNZ'' then exec_Jcc (\<not> ZF fl) ops cpu program ram
      else if op ins = ''JC'' then exec_Jcc (CF fl) ops cpu program ram
      else if op ins = ''JNC'' then exec_Jcc (\<not> CF fl) ops cpu program ram
      else if op ins = ''JG'' then exec_Jcc (\<not> ZF fl \<and> NF fl = OF fl) ops cpu program ram
      else if op ins = ''JGE'' then exec_Jcc (NF fl = OF fl) ops cpu program ram
      else if op ins = ''JL'' then exec_Jcc (NF fl \<noteq> OF fl) ops cpu program ram
      else if op ins = ''JLE'' then exec_Jcc (ZF fl \<or> NF fl \<noteq> OF fl) ops cpu program ram
      else if op ins = ''INC'' then exec_unary ''INC'' 1 FAdd ops cpu program ram
      else if op ins = ''DEC'' then exec_unary ''DEC'' (- 1) FSub ops cpu program ram
      else if op ins = ''LEA'' then exec_LEA ops cpu program ram
      else if op ins = ''SYS'' then exec_SYS ops cpu program ram
      else if op ins = ''PUSH'' then exec_PUSH ops cpu program ram
      else if op ins = ''POP'' then exec_POP ops cpu program ram
      else if op ins = ''CALL'' then exec_CALL ops cpu program ram
      else if op ins = ''RET'' then exec_RET ops cpu program ram
      else (Throw (UnknownInstruction (op ins)), cpu, ram))"

text \<open>
  \<^verbatim>\<open>step\<close> returns the error it throws, if any, with the CPU and the memory as the call
  leaves them. With a negative instruction pointer \<^verbatim>\<open>program.ast[cpu.IP]\<close> is
  \<^verbatim>\<open>undefined\<close> and the destructuring, which is outside the \<^verbatim>\<open>try\<close>, throws a TypeError.
  \<^verbatim>\<open>cpu.IP++\<close> happens at an index below the length of the list, where it is exact.
\<close>

definition step :: "CPU \<Rightarrow> Program \<Rightarrow> ram \<Rightarrow> exn option \<times> CPU \<times> ram" where
  "step cpu program ram =
     (if halted cpu \<or> int (length (ast program)) \<le> IP cpu then (None, cpu\<lparr>halted := True\<rparr>, ram)
      else if IP cpu < 0 then (Some JsTypeError, cpu, ram)
      else let instruction = ast program ! nat (IP cpu) in
        case exec instruction cpu program ram of
          (Break, cpu', ram') \<Rightarrow> (None, cpu'\<lparr>IP := IP cpu' + 1\<rparr>, ram')
        | (Return, cpu', ram') \<Rightarrow> (None, cpu', ram')
        | (Throw m, cpu', ram') \<Rightarrow> (Some (AsmError (line instruction) m), cpu', ram')
        | (OutsideModel, cpu', ram') \<Rightarrow> (Some Unmodelled, cpu', ram'))"

text \<open>
  \<^verbatim>\<open>run\<close>: the loop, with the step counter as an argument. An error thrown by \<^verbatim>\<open>step\<close>
  leaves the loop; the result then holds the error and the number of completed steps.
\<close>

function run_loop ::
  "CPU \<Rightarrow> Program \<Rightarrow> ram \<Rightarrow> int \<Rightarrow> int set \<Rightarrow> int \<Rightarrow> exn option \<times> CPU \<times> ram \<times> int" where
  "run_loop cpu program ram maxSteps breakpoints steps =
     (if \<not> halted cpu \<and> steps < maxSteps then
        if IP cpu \<in> breakpoints then (None, cpu, ram, steps)
        else (case step cpu program ram of
                (None, cpu', ram') \<Rightarrow> run_loop cpu' program ram' maxSteps breakpoints (steps + 1)
              | (Some e, cpu', ram') \<Rightarrow> (Some e, cpu', ram', steps))
      else (None, cpu, ram, steps))"
  by pat_completeness auto
termination
  by (relation "measure (\<lambda>(cpu, program, ram, maxSteps, breakpoints, steps). nat (maxSteps - steps))")
     auto

definition run :: "CPU \<Rightarrow> Program \<Rightarrow> ram \<Rightarrow> int \<Rightarrow> int set \<Rightarrow> exn option \<times> CPU \<times> ram \<times> int" where
  "run cpu program ram maxSteps breakpoints = run_loop cpu program ram maxSteps breakpoints 0"


section \<open>The assembler\<close>

subsection \<open>String operations of the host language\<close>

text \<open>White space of \<^verbatim>\<open>trim\<close>, of \<^verbatim>\<open>\s\<close> and of \<^verbatim>\<open>parseInt\<close>, within ASCII: TAB, LF, VT, FF, CR, SP.\<close>

definition isSpace :: "char \<Rightarrow> bool" where
  "isSpace c = (of_char c \<in> {9, 10, 11, 12, 13, 32 :: nat})"

definition isDigit :: "char \<Rightarrow> bool" where
  "isDigit c = (48 \<le> (of_char c :: nat) \<and> (of_char c :: nat) \<le> 57)"

definition trim :: "string \<Rightarrow> string" where
  "trim s = rev (dropWhile isSpace (rev (dropWhile isSpace s)))"

definition upperChar :: "char \<Rightarrow> char" where
  "upperChar c =
     (if 97 \<le> (of_char c :: nat) \<and> (of_char c :: nat) \<le> 122 then char_of (of_char c - 32 :: nat) else c)"

definition toUpperCase :: "string \<Rightarrow> string" where
  "toUpperCase s = map upperChar s"

definition startsWith :: "string \<Rightarrow> string \<Rightarrow> bool" where
  "startsWith p s = (take (length p) s = p)"

definition endsWith :: "string \<Rightarrow> string \<Rightarrow> bool" where
  "endsWith p s = (length p \<le> length s \<and> drop (length s - length p) s = p)"

text \<open>\<^verbatim>\<open>s.split(c)\<close> for a one-character separator: the empty string gives one empty piece.\<close>

fun splitOn :: "char \<Rightarrow> string \<Rightarrow> string list" where
  "splitOn c [] = [[]]"
| "splitOn c (x # xs) =
     (if x = c then [] # splitOn c xs
      else case splitOn c xs of
             w # ws \<Rightarrow> (x # w) # ws
           | [] \<Rightarrow> [[x]])"

text \<open>
  \<^verbatim>\<open>s.split(/\s+/)\<close>: the pieces between the maximal runs of white space; a run at the
  start or at the end gives an empty first or last piece. The second argument is the
  piece being read, reversed, the third says whether the last character was white space.
\<close>

fun splitWsAux :: "string \<Rightarrow> string \<Rightarrow> bool \<Rightarrow> string list" where
  "splitWsAux [] cur inWs = [rev cur]"
| "splitWsAux (c # cs) cur inWs =
     (if isSpace c then (if inWs then splitWsAux cs cur True else rev cur # splitWsAux cs [] True)
      else splitWsAux cs (c # cur) False)"

definition splitWs :: "string \<Rightarrow> string list" where
  "splitWs s = splitWsAux s [] False"

fun join :: "string \<Rightarrow> string list \<Rightarrow> string" where
  "join sep [] = []"
| "join sep [x] = x"
| "join sep (x # y # ys) = x @ sep @ join sep (y # ys)"

text \<open>
  \<^verbatim>\<open>parseInt(s, 10)\<close>: leading white space, one optional sign, then the longest run of
  digits; NaN (\<open>None\<close>) when there is no digit. The value is a double.
\<close>

definition digitsValue :: "string \<Rightarrow> int" where
  "digitsValue ds = foldl (\<lambda>a c. 10 * a + (int (of_char c) - 48)) 0 ds"

definition parseInt :: "string \<Rightarrow> int option" where
  "parseInt s =
     (let s1 = dropWhile isSpace s;
          neg = (case s1 of c # _ \<Rightarrow> c = CHR ''-'' | [] \<Rightarrow> False);
          s2 = (case s1 of c # t \<Rightarrow> if c = CHR ''-'' \<or> c = CHR ''+'' then t else s1 | [] \<Rightarrow> s1);
          ds = takeWhile isDigit s2
      in if ds = [] then None
         else Some (dbl ((if neg then - 1 else 1) * digitsValue ds)))"

subsection \<open>Operands\<close>

definition REGISTERS :: "(string \<times> int) list" where
  "REGISTERS =
     [(''R0'', 0), (''R1'', 1), (''R2'', 2), (''R3'', 3), (''R4'', 4), (''R5'', 5), (''R6'', 6),
      (''R7'', 7), (''SP'', - 1), (''BP'', - 2)]"

definition regOf :: "int \<Rightarrow> regidx" where
  "regOf k = (if k = - 1 then RSP else if k = - 2 then RBP else GPR (word_of_int k))"

text \<open>
  The match of \<^verbatim>\<open>/^(R[0-7]|SP|BP)\s*([+-])\s*(\d+)$/i\<close>: the register name in upper case,
  whether the sign is a plus, and the digits.
\<close>

definition offsetMatch :: "string \<Rightarrow> (string \<times> bool \<times> string) option" where
  "offsetMatch inner =
     (let reg = toUpperCase (take 2 inner) in
      if map_of REGISTERS reg = None then None
      else case dropWhile isSpace (drop 2 inner) of
             [] \<Rightarrow> None
           | sign # rest \<Rightarrow>
               if sign = CHR ''+'' \<or> sign = CHR ''-'' then
                 (let ds = dropWhile isSpace rest in
                  if ds \<noteq> [] \<and> list_all isDigit ds then Some (reg, sign = CHR ''+'', ds) else None)
               else None)"

definition parseOperand :: "string \<Rightarrow> labeltab \<Rightarrow> int \<Rightarrow> exn + Operand" where
  "parseOperand token0 labs lineNum =
     (let token = (if endsWith '','' token0 then butlast token0 else token0) in
      if startsWith ''#'' token then
        (case parseInt (drop 1 token) of
           None \<Rightarrow> Inl (AsmError lineNum (InvalidImmediate token))
         | Some v \<Rightarrow> Inr (Imm v))
      else if startsWith ''['' token \<and> endsWith '']'' token then
        (let inner = butlast (drop 1 token) in
         case offsetMatch inner of
           Some (reg, isPlus, ds) \<Rightarrow>
             (case map_of REGISTERS reg of
                None \<Rightarrow> Inl (AsmError lineNum (InvalidRegister reg))
              | Some k \<Rightarrow> Inr (Mem k (Some (the (parseInt ds) * (if isPlus then 1 else - 1)))))
         | None \<Rightarrow>
             (case map_of REGISTERS (toUpperCase inner) of
                Some k \<Rightarrow> Inr (Mem k None)
              | None \<Rightarrow>
                  (case parseInt inner of
                     Some addr \<Rightarrow> Inr (Mem addr None)
                   | None \<Rightarrow> Inr (MemLabel inner))))
      else case map_of REGISTERS (toUpperCase token) of
             Some k \<Rightarrow> Inr (Reg (regOf k))
           | None \<Rightarrow>
               (case parseInt token of
                  Some num \<Rightarrow> Inr (Imm num)
                | None \<Rightarrow> Inr (Label token)))"

fun parseOperands :: "string list \<Rightarrow> labeltab \<Rightarrow> int \<Rightarrow> exn + Operand list" where
  "parseOperands [] labs lineNum = Inr []"
| "parseOperands (t # ts) labs lineNum =
     (case parseOperand t labs lineNum of
        Inl e \<Rightarrow> Inl e
      | Inr x \<Rightarrow>
          (case parseOperands ts labs lineNum of
             Inl e \<Rightarrow> Inl e
           | Inr xs \<Rightarrow> Inr (x # xs)))"

subsection \<open>Pass 1\<close>

record asmstate =
  a_ast :: "Instruction list"
  a_labels :: labeltab
  a_dataSection :: "8 word list"
  a_currentAddress :: int
  a_inDataSection :: bool
  a_dataPtr :: nat
  a_textStart :: int

text \<open>
  \<^verbatim>\<open>dataSection[dataPtr++] = b\<close> on a \<^verbatim>\<open>Uint8Array(1024)\<close>: a write past the end is dropped,
  the pointer moves on all the same.
\<close>

definition emitByte :: "asmstate \<Rightarrow> 8 word \<Rightarrow> asmstate" where
  "emitByte st b =
     st\<lparr>a_dataSection := (a_dataSection st)[a_dataPtr st := b], a_dataPtr := a_dataPtr st + 1\<rparr>"

text \<open>The four bytes \<^verbatim>\<open>val & 0xFF\<close>, \<^verbatim>\<open>(val >> 8) & 0xFF\<close>, ... of a value, after ToInt32.\<close>

definition wordByte :: "int \<Rightarrow> nat \<Rightarrow> 8 word" where
  "wordByte val k = ucast (signed_drop_bit k (word_of_int val :: 32 word) AND 255)"

definition emitWord :: "asmstate \<Rightarrow> int \<Rightarrow> asmstate" where
  "emitWord st val =
     emitByte (emitByte (emitByte (emitByte st (wordByte val 0)) (wordByte val 8))
       (wordByte val 16)) (wordByte val 24)"

definition directiveValues :: "string list \<Rightarrow> int option list" where
  "directiveValues directive = map (\<lambda>v. parseInt (trim v)) (splitOn (CHR '','') (join '' '' (tl directive)))"

fun emitWords :: "int \<Rightarrow> int option list \<Rightarrow> asmstate \<Rightarrow> exn + asmstate" where
  "emitWords lineNum [] st = Inr st"
| "emitWords lineNum (None # vs) st = Inl (AsmError lineNum InvalidWordValue)"
| "emitWords lineNum (Some val # vs) st = emitWords lineNum vs (emitWord st val)"

fun emitBytes :: "int \<Rightarrow> int option list \<Rightarrow> asmstate \<Rightarrow> exn + asmstate" where
  "emitBytes lineNum [] st = Inr st"
| "emitBytes lineNum (None # vs) st = Inl (AsmError lineNum InvalidByteValue)"
| "emitBytes lineNum (Some val # vs) st = emitBytes lineNum vs (emitByte st (wordByte val 0))"

text \<open>
  The \<^verbatim>\<open>switch\<close> on a line that starts with a dot. \<open>None\<close>: no case matched, and control
  falls through to the label and instruction code below it.
\<close>

definition directive1 :: "int \<Rightarrow> string \<Rightarrow> asmstate \<Rightarrow> (exn + asmstate) option" where
  "directive1 lineNum trimmed st =
     (let directive = splitWs trimmed; cmd = toUpperCase (hd directive) in
      if cmd = ''.DATA'' then Some (Inr (st\<lparr>a_inDataSection := True\<rparr>))
      else if cmd = ''.TEXT'' then
        Some (Inr (st\<lparr>a_inDataSection := False, a_textStart := a_currentAddress st\<rparr>))
      else if cmd = ''.ORG'' then
        (if length directive < 2 then Some (Inl (AsmError lineNum OrgRequiresAddress))
         else case parseInt (directive ! 1) of
                None \<Rightarrow> Some (Inl (AsmError lineNum InvalidOrgAddress))
              | Some a \<Rightarrow> Some (Inr (st\<lparr>a_currentAddress := a\<rparr>)))
      else if cmd = ''.WORD'' then
        Some (if a_inDataSection st then emitWords lineNum (directiveValues directive) st else Inr st)
      else if cmd = ''.BYTE'' then
        Some (if a_inDataSection st then emitBytes lineNum (directiveValues directive) st else Inr st)
      else None)"

definition labelDef :: "int \<Rightarrow> string \<Rightarrow> asmstate \<Rightarrow> exn + asmstate" where
  "labelDef lineNum trimmed st =
     (let labelName = trim (takeWhile (\<lambda>c. c \<noteq> CHR '':'') trimmed);
          st1 = st\<lparr>a_labels :=
                    (labelName, if a_inDataSection st then int (a_dataPtr st) else a_currentAddress st)
                      # a_labels st\<rparr>;
          afterColon = trim (drop 1 (dropWhile (\<lambda>c. c \<noteq> CHR '':'') trimmed))
      in if startsWith ''.'' afterColon then
           (let directive = splitWs afterColon; cmd = toUpperCase (hd directive) in
            if cmd = ''.WORD'' then emitWords lineNum (directiveValues directive) st1 else Inr st1)
         else Inr st1)"

definition isBlankOrComment :: "string \<Rightarrow> bool" where
  "isBlankOrComment trimmed = (trimmed = [] \<or> startsWith '';'' trimmed \<or> startsWith ''//'' trimmed)"

definition pass1_line :: "nat \<Rightarrow> string \<Rightarrow> asmstate \<Rightarrow> exn + asmstate" where
  "pass1_line i l st =
     (let trimmed = trim l in
      if isBlankOrComment trimmed then Inr st
      else case (if startsWith ''.'' trimmed then directive1 (int i + 1) trimmed st else None) of
             Some r \<Rightarrow> r
           | None \<Rightarrow>
               if CHR '':'' \<in> set trimmed then labelDef (int i + 1) trimmed st
               else if \<not> a_inDataSection st then
                 Inr (st\<lparr>a_ast := a_ast st @
                            [\<lparr> op = toUpperCase (hd (splitWs trimmed)), operands = [],
                               line = int i + 1, source = trimmed \<rparr>],
                         a_currentAddress := dbl (a_currentAddress st + 1)\<rparr>)
               else Inr st)"

fun pass1 :: "nat \<Rightarrow> string list \<Rightarrow> asmstate \<Rightarrow> exn + asmstate" where
  "pass1 i [] st = Inr st"
| "pass1 i (l # ls) st =
     (case pass1_line i l st of
        Inl e \<Rightarrow> Inl e
      | Inr st' \<Rightarrow> pass1 (i + 1) ls st')"

subsection \<open>Pass 2\<close>

text \<open>The lines that pass 2 skips.\<close>

definition pass2_skips :: "string \<Rightarrow> bool" where
  "pass2_skips trimmed =
     (isBlankOrComment trimmed \<or> startsWith ''.'' trimmed \<or> endsWith '':'' trimmed)"

text \<open>
  One line of pass 2 on the instruction list and \<^verbatim>\<open>astIndex\<close>. When \<^verbatim>\<open>astIndex\<close> is past
  the end, \<^verbatim>\<open>ast[astIndex]\<close> is \<^verbatim>\<open>undefined\<close> and the assignment to its \<^verbatim>\<open>operands\<close> throws a
  TypeError; the operands are parsed before that.
\<close>

definition pass2_line ::
  "nat \<Rightarrow> string \<Rightarrow> labeltab \<Rightarrow> Instruction list \<times> nat \<Rightarrow> exn + Instruction list \<times> nat" where
  "pass2_line i l labs st =
     (let trimmed = trim l; ast0 = fst st; astIndex = snd st in
      if pass2_skips trimmed then Inr st
      else case parseOperands (tl (splitWs trimmed)) labs (int i + 1) of
             Inl e \<Rightarrow> Inl e
           | Inr ops \<Rightarrow>
               if astIndex < length ast0
               then Inr (ast0[astIndex := (ast0 ! astIndex)\<lparr>operands := ops\<rparr>], astIndex + 1)
               else Inl JsTypeError)"

fun pass2 ::
  "nat \<Rightarrow> string list \<Rightarrow> labeltab \<Rightarrow> Instruction list \<times> nat \<Rightarrow> exn + Instruction list \<times> nat" where
  "pass2 i [] labs st = Inr st"
| "pass2 i (l # ls) labs st =
     (case pass2_line i l labs st of
        Inl e \<Rightarrow> Inl e
      | Inr st' \<Rightarrow> pass2 (i + 1) ls labs st')"

definition asm_init :: asmstate where
  "asm_init = \<lparr> a_ast = [], a_labels = [], a_dataSection = replicate 1024 0, a_currentAddress = 0,
                a_inDataSection = False, a_dataPtr = 0, a_textStart = 0 \<rparr>"

definition assemble :: "string \<Rightarrow> exn + Program" where
  "assemble src =
     (let lns = splitOn (CHR 0x0A) src in
      case pass1 0 lns asm_init of
        Inl e \<Rightarrow> Inl e
      | Inr st \<Rightarrow>
          (case pass2 0 lns (a_labels st) (a_ast st, 0) of
             Inl e \<Rightarrow> Inl e
           | Inr (ast', n) \<Rightarrow>
               Inr \<lparr> lines = lns, ast = ast', labels = a_labels st,
                     dataSection = a_dataSection st, textStart = a_textStart st \<rparr>))"

section \<open>Concrete programs and states\<close>

definition instr :: "string \<Rightarrow> Operand list \<Rightarrow> int \<Rightarrow> Instruction" where
  "instr name ops l = \<lparr> op = name, operands = ops, line = l, source = [] \<rparr>"

definition program_of :: "Instruction list \<Rightarrow> Program" where
  "program_of is = \<lparr> lines = [], ast = is, labels = [], dataSection = [], textStart = 0 \<rparr>"

text \<open>\<^verbatim>\<open>createRAM()\<close>: 4096 zero bytes.\<close>

definition createRAM :: ram where
  "createRAM = replicate 4096 0"


text \<open>\<open>stepN n\<close>: \<^verbatim>\<open>step\<close> called \<open>n\<close> times in a row, stopping at the first error.\<close>

fun stepN :: "nat \<Rightarrow> CPU \<Rightarrow> Program \<Rightarrow> ram \<Rightarrow> exn option \<times> CPU \<times> ram" where
  "stepN 0 cpu program ram = (None, cpu, ram)"
| "stepN (Suc n) cpu program ram =
     (case step cpu program ram of
        (None, cpu', ram') \<Rightarrow> stepN n cpu' program ram'
      | (Some e, cpu', ram') \<Rightarrow> (Some e, cpu', ram'))"

text \<open>
  Specification side: the range of a signed 32-bit integer, and the mathematically exact
  result of an arithmetic instruction on the destination's value and the source value
  (\<^verbatim>\<open>DIV\<close> rounds towards minus infinity).
\<close>

definition inInt32 :: "int \<Rightarrow> bool" where
  "inInt32 x = (- 2147483648 \<le> x \<and> x \<le> 2147483647)"

definition exactResult :: "string \<Rightarrow> int \<Rightarrow> int \<Rightarrow> int" where
  "exactResult name a b =
     (if name = ''ADD'' then a + b
      else if name = ''SUB'' then a - b
      else if name = ''MUL'' then a * b
      else if name = ''DIV'' then a div b
      else if name = ''INC'' then a + 1
      else if name = ''DEC'' then a - 1
      else 0)"


text \<open>A source text given by its lines, joined by line feeds.\<close>

definition unlines :: "string list \<Rightarrow> string" where
  "unlines ls = join [CHR 0x0A] ls"

section \<open>Properties\<close>

subsection \<open>Numbers and memory\<close>

lemma dbl_id: "\<bar>x\<bar> \<le> 2 ^ 53 \<Longrightarrow> dbl x = x"
  by (simp add: dbl_def)

lemma ToInt32_id: "inInt32 v \<Longrightarrow> ToInt32 v = v"
  unfolding ToInt32_def inInt32_def by (simp add: sint_sbintrunc' signed_take_bit_int_eq_self)

lemma take_bit_split: "take_bit (m + n) (v::int) = take_bit m v + 2 ^ m * take_bit n (drop_bit m v)"
  using bits_ident[of m "take_bit (m + n) v"]
  by (simp add: drop_bit_take_bit push_bit_eq_mult mult.commute add.commute)

lemma take_bit_32_bytes:
  "take_bit 32 (v::int) = take_bit 8 v + 256 * take_bit 8 (drop_bit 8 v)
      + 65536 * take_bit 8 (drop_bit 16 v) + 16777216 * take_bit 8 (drop_bit 24 v)"
proof -
  have a: "take_bit 32 v = take_bit 8 v + 256 * take_bit 24 (drop_bit 8 v)"
    using take_bit_split[of 8 24 v] by simp
  have b: "take_bit 24 (drop_bit 8 v) = take_bit 8 (drop_bit 8 v) + 256 * take_bit 16 (drop_bit 16 v)"
    using take_bit_split[of 8 16 "drop_bit 8 v"] by simp
  have c: "take_bit 16 (drop_bit 16 v) = take_bit 8 (drop_bit 16 v) + 256 * take_bit 8 (drop_bit 24 v)"
    using take_bit_split[of 8 8 "drop_bit 16 v"] by simp
  show ?thesis unfolding a b c by (simp only: distrib_left mult.assoc[symmetric] add.assoc)
qed

lemma le32_byte_of: "le32 (byte_of v 0) (byte_of v (Suc 0)) (byte_of v 2) (byte_of v 3) = ToInt32 v"
proof -
  have u: "\<And>k. uint (byte_of v k) = take_bit 8 (drop_bit (8 * k) v)"
    by (simp add: byte_of_def uint_word_of_int_eq drop_bit_eq_div)
  have "word_of_int (take_bit 32 v) = (word_of_int v :: 32 word)"
    by (simp add: word_of_int_eq_iff)
  then show ?thesis
    unfolding le32_def ToInt32_def u using take_bit_32_bytes[of v] by simp
qed

lemma setInt32_length: "setInt32 ram a v = Inr ram' \<Longrightarrow> length ram' = length ram"
  by (auto simp: setInt32_def Let_def split: if_splits)

lemma getInt32_setInt32: "setInt32 ram a v = Inr ram' \<Longrightarrow> getInt32 ram' a = Inr (ToInt32 v)"
  by (auto simp: setInt32_def getInt32_def Let_def le32_byte_of split: if_splits)

lemma getInt32_in_range:
  "0 \<le> a \<Longrightarrow> a + 4 \<le> int (length ram) \<Longrightarrow>
   getInt32 ram a = Inr (le32 (ram ! nat a) (ram ! (nat a + 1)) (ram ! (nat a + 2)) (ram ! (nat a + 3)))"
  by (simp add: getInt32_def Let_def)

lemma setInt32_in_range:
  "0 \<le> a \<Longrightarrow> a + 4 \<le> int (length ram) \<Longrightarrow>
   setInt32 ram a v = Inr (ram[nat a := byte_of v 0, nat a + 1 := byte_of v 1,
                               nat a + 2 := byte_of v 2, nat a + 3 := byte_of v 3])"
  by (simp add: setInt32_def Let_def)

subsection \<open>One step on a running CPU\<close>

lemma step_running:
  assumes "\<not> halted cpu" "0 \<le> IP cpu" "IP cpu < int (length (ast program))"
  shows "step cpu program ram =
     (case exec (ast program ! nat (IP cpu)) cpu program ram of
          (Break, cpu', ram') \<Rightarrow> (None, cpu'\<lparr>IP := IP cpu' + 1\<rparr>, ram')
        | (Return, cpu', ram') \<Rightarrow> (None, cpu', ram')
        | (Throw m, cpu', ram') \<Rightarrow> (Some (AsmError (line (ast program ! nat (IP cpu))) m), cpu', ram')
        | (OutsideModel, cpu', ram') \<Rightarrow> (Some Unmodelled, cpu', ram'))"
  using assms by (simp add: step_def Let_def)

lemma exec_logic:
  assumes "op i \<in> {''AND'', ''OR'', ''XOR'', ''NOT'', ''SHL'', ''SHR''}"
  shows "exec i cpu program ram = (Throw (UnknownInstruction (op i)), cpu, ram)"
  using assms by (auto simp: exec_def)

lemma exec_POP_eq: "op i = ''POP'' \<Longrightarrow> exec i cpu program ram = exec_POP (operands i) cpu program ram"
  by (simp add: exec_def)

lemma exec_RET_eq: "op i = ''RET'' \<Longrightarrow> exec i cpu program ram = exec_RET (operands i) cpu program ram"
  by (simp add: exec_def)

lemma exec_STORE_eq: "op i = ''STORE'' \<Longrightarrow> exec i cpu program ram = exec_STORE (operands i) cpu program ram"
  by (simp add: exec_def)

lemma exec_CALL_eq: "op i = ''CALL'' \<Longrightarrow> exec i cpu program ram = exec_CALL (operands i) cpu program ram"
  by (simp add: exec_def)

lemma exec_PUSH_eq: "op i = ''PUSH'' \<Longrightarrow> exec i cpu program ram = exec_PUSH (operands i) cpu program ram"
  by (simp add: exec_def)

subsection \<open>Logic opcodes\<close>

text \<open>
  C2. The claim: an instruction whose opcode is \<^verbatim>\<open>AND\<close>, \<^verbatim>\<open>OR\<close>, \<^verbatim>\<open>XOR\<close>, \<^verbatim>\<open>NOT\<close>, \<^verbatim>\<open>SHL\<close> or
  \<^verbatim>\<open>SHR\<close> performs that logic operation. What \<^verbatim>\<open>step\<close> does: the \<^verbatim>\<open>switch\<close> has no case for
  any of the six, so on a running CPU the step fails with \<^verbatim>\<open>Unknown instruction\<close> and
  leaves the CPU and the memory as they were.
\<close>

theorem step_logic_unknown:
  assumes "\<not> halted cpu" "0 \<le> IP cpu" "IP cpu < int (length (ast program))"
    and "op (ast program ! nat (IP cpu)) \<in> {''AND'', ''OR'', ''XOR'', ''NOT'', ''SHL'', ''SHR''}"
  shows "step cpu program ram =
           (Some (AsmError (line (ast program ! nat (IP cpu)))
                    (UnknownInstruction (op (ast program ! nat (IP cpu))))), cpu, ram)"
  by (simp add: step_running[OF assms(1-3)] exec_logic[OF assms(4)])

theorem step_logic_unknown_witness:
  "step reset (program_of [instr ''AND'' [Reg (GPR 2), Imm 255] 12]) createRAM =
     (Some (AsmError 12 (UnknownInstruction ''AND'')), reset, createRAM)"
  using step_logic_unknown[of reset "program_of [instr ''AND'' [Reg (GPR 2), Imm 255] 12]" createRAM]
  by (simp add: reset_def program_of_def instr_def)

subsection \<open>Stack underflow\<close>

lemma exec_POP_underflow:
  "length ops = 1 \<Longrightarrow>
   (\<exists>cpu' ram'. exec_POP ops cpu program ram = (Throw StackUnderflow, cpu', ram')) \<longleftrightarrow> RAM_SIZE - 4 \<le> SP cpu"
  by (auto simp: exec_POP_def Let_def getInt32_def split: sum.splits Operand.splits)

lemma exec_RET_underflow:
  "(\<exists>cpu' ram'. exec_RET ops cpu program ram = (Throw StackUnderflow, cpu', ram')) \<longleftrightarrow> RAM_SIZE - 4 \<le> SP cpu"
  by (auto simp: exec_RET_def Let_def getInt32_def split: sum.splits)

lemma exec_POP_top:
  "RAM_SIZE - 4 \<le> SP cpu \<Longrightarrow> \<exists>m. exec_POP ops cpu program ram = (Throw m, cpu, ram)"
  by (auto simp: exec_POP_def)

lemma exec_RET_top:
  "RAM_SIZE - 4 \<le> SP cpu \<Longrightarrow> \<exists>m. exec_RET ops cpu program ram = (Throw m, cpu, ram)"
  by (auto simp: exec_RET_def)

lemma step_throw_iff:
  assumes "\<not> halted cpu" "0 \<le> IP cpu" "IP cpu < int (length (ast program))"
  shows "step cpu program ram = (Some (AsmError l m), cpu', ram') \<longleftrightarrow>
         l = line (ast program ! nat (IP cpu)) \<and>
         exec (ast program ! nat (IP cpu)) cpu program ram = (Throw m, cpu', ram')"
  unfolding step_running[OF assms]
  by (auto split: prod.splits flow.splits)

text \<open>
  C10. \<^verbatim>\<open>POP\<close> with its one operand and \<^verbatim>\<open>RET\<close> raise \<^verbatim>\<open>Stack underflow\<close> exactly when the stack
  pointer is at least 4092 at entry. With the stack pointer of \<^verbatim>\<open>reset\<close>, which is 4092, every
  \<^verbatim>\<open>POP\<close> and \<^verbatim>\<open>RET\<close> fails and changes nothing, so the word in the bytes 4092 to 4095 is never
  popped; yet a word read at 4092 through a memory operand is in bounds in a memory of 4096
  bytes.
\<close>

theorem pop_ret_underflow:
  assumes "\<not> halted cpu" "0 \<le> IP cpu" "IP cpu < int (length (ast program))"
    and "i = ast program ! nat (IP cpu)"
    and "op i = ''POP'' \<or> op i = ''RET''"
  shows "(op i = ''RET'' \<or> length (operands i) = 1 \<longrightarrow>
            ((\<exists>cpu' ram'. step cpu program ram = (Some (AsmError (line i) StackUnderflow), cpu', ram'))
               \<longleftrightarrow> 4092 \<le> SP cpu))
       \<and> SP reset = 4092
       \<and> (SP cpu = SP reset \<longrightarrow> (\<exists>m. step cpu program ram = (Some (AsmError (line i) m), cpu, ram)))
       \<and> (length ram = 4096 \<longrightarrow>
            (\<exists>v. resolveOperand (Mem 4092 None) cpu ram (labels program) = Inr v))"
proof (intro conjI impI)
  assume "op i = ''RET'' \<or> length (operands i) = 1"
  then show "(\<exists>cpu' ram'. step cpu program ram = (Some (AsmError (line i) StackUnderflow), cpu', ram'))
               \<longleftrightarrow> 4092 \<le> SP cpu"
    using assms(4,5) exec_POP_underflow[of "operands i" cpu program ram]
      exec_RET_underflow[of "operands i" cpu program ram]
    by (auto simp: step_throw_iff[OF assms(1-3)] exec_POP_eq exec_RET_eq RAM_SIZE_def)
next
  show "SP reset = 4092" by (simp add: reset_def RAM_SIZE_def)
next
  assume "SP cpu = SP reset"
  then have "RAM_SIZE - 4 \<le> SP cpu" by (simp add: reset_def)
  then show "\<exists>m. step cpu program ram = (Some (AsmError (line i) m), cpu, ram)"
    using assms(4,5) exec_POP_top[of cpu "operands i" program ram]
      exec_RET_top[of cpu "operands i" program ram]
    by (auto simp: step_throw_iff[OF assms(1-3)] exec_POP_eq exec_RET_eq)
next
  assume "length ram = 4096"
  then show "\<exists>v. resolveOperand (Mem 4092 None) cpu ram (labels program) = Inr v"
    by (simp add: readMem_def memAddr_def outOfBounds_def toIndex_def RAM_SIZE_def getInt32_def Let_def)
qed

theorem pop_ret_underflow_witness:
  "step reset (program_of [instr ''POP'' [Reg (GPR 0)] 7]) createRAM =
      (Some (AsmError 7 StackUnderflow), reset, createRAM)
   \<and> (\<exists>v. resolveOperand (Mem 4092 None) reset createRAM [] = Inr v)"
  using pop_ret_underflow[of reset "program_of [instr ''POP'' [Reg (GPR 0)] 7]"
      "instr ''POP'' [Reg (GPR 0)] 7" createRAM]
  by (auto simp: reset_def program_of_def instr_def createRAM_def RAM_SIZE_def)


subsection \<open>Bounds of word accesses\<close>

lemma exec_STORE_at:
  assumes "length ram = 4096"
    and "storeAddr dst cpu (labels program) = Some x"
    and "resolveOperand src cpu ram (labels program) = Inr v"
  shows "exec_STORE [dst, src] cpu program ram =
           (if toIndex x < 0 \<or> 4096 < toIndex x + 4 then (Throw (StoreOutOfBounds (toIndex x)), cpu, ram)
            else (Break, cpu, ram[nat (toIndex x) := byte_of v 0, nat (toIndex x) + 1 := byte_of v 1,
                                  nat (toIndex x) + 2 := byte_of v 2, nat (toIndex x) + 3 := byte_of v 3]))"
  using assms
  by (cases x)
     (simp_all add: exec_STORE_def outOfBounds_def toIndex_def RAM_SIZE_def setInt32_def Let_def)

text \<open>
  C4. The claim: a word access at the address \<open>a\<close> raises the out-of-bounds error exactly
  when \<open>a < 0\<close> or \<open>a + 4 > 4096\<close>, and never clamps the address. The source tests
  \<^verbatim>\<open>addr < 0 || addr >= RAM_SIZE - 3\<close> on the address the operand yields, and that address can
  be \<^verbatim>\<open>undefined\<close>: a negative operand value other than \<open>-1\<close> and \<open>-2\<close> is used as an index into
  the register array, and \<^verbatim>\<open>STORE\<close> reads the label table without the test for an undefined
  label that \<^verbatim>\<open>LOAD\<close> and \<^verbatim>\<open>resolveOperand\<close> make. Both comparisons are false on \<^verbatim>\<open>undefined\<close>,
  and the DataView takes it as offset 0. So \<^verbatim>\<open>LOAD R0, [-5]\<close>, an access at a negative
  address, raises no error and loads the word at 0; and \<^verbatim>\<open>STORE [nowhere], R0\<close>, where no
  label \<^verbatim>\<open>nowhere\<close> is defined, raises no error and overwrites the word at 0, while
  \<^verbatim>\<open>LOAD R0, [nowhere]\<close> fails with \<^verbatim>\<open>Undefined label\<close>.
\<close>

theorem word_access_undefined_address:
  "map_sum id (map operands \<circ> ast) (assemble ''LOAD R0, [-5]'')
     = Inr [[Reg (GPR 0), Mem (- 5) None]]
   \<and> step reset (program_of [instr ''LOAD'' [Reg (GPR 0), Mem (- 5) None] 1]) (createRAM[0 := 42])
     = (None, reset\<lparr>R := (R reset)(0 := 42), IP := 1\<rparr>, createRAM[0 := 42])
   \<and> map_sum id (map operands \<circ> ast) (assemble ''STORE [nowhere], R0'')
     = Inr [[MemLabel ''nowhere'', Reg (GPR 0)]]
   \<and> step (reset\<lparr>R := (R reset)(0 := 16909060)\<rparr>)
          (program_of [instr ''STORE'' [MemLabel ''nowhere'', Reg (GPR 0)] 1]) createRAM
     = (None, reset\<lparr>R := (R reset)(0 := 16909060), IP := 1\<rparr>,
        createRAM[0 := 4, 1 := 3, 2 := 2, 3 := 1])
   \<and> step reset (program_of [instr ''LOAD'' [Reg (GPR 0), MemLabel ''nowhere''] 1]) createRAM
     = (Some (AsmError 1 (UndefinedLabel ''nowhere'')), reset, createRAM)"
proof -
  have a: "map_sum id (map operands \<circ> ast) (assemble ''LOAD R0, [-5]'')
     = Inr [[Reg (GPR 0), Mem (- 5) None]]"
    by code_simp
  have b: "map_sum id (map operands \<circ> ast) (assemble ''STORE [nowhere], R0'')
     = Inr [[MemLabel ''nowhere'', Reg (GPR 0)]]"
    by code_simp
  have len: "length createRAM = 4096" "createRAM ! 0 = 0" "createRAM ! Suc 0 = 0"
    "createRAM ! Suc (Suc 0) = 0" "createRAM ! 2 = 0" "createRAM ! 3 = 0"
    by (simp_all add: createRAM_def)
  have w: "le32 42 0 0 0 = 42" by (simp add: le32_def ToInt32_def)
  have v: "sint (16909060 :: 32 word) = 16909060" by simp
  have bytes: "byte_of 16909060 0 = 4" "byte_of 16909060 (Suc 0) = 3" "byte_of 16909060 2 = 2"
    "byte_of 16909060 3 = 1"
    by (simp_all add: byte_of_def)
  have c: "step reset (program_of [instr ''LOAD'' [Reg (GPR 0), Mem (- 5) None] 1]) (createRAM[0 := 42])
     = (None, reset\<lparr>R := (R reset)(0 := 42), IP := 1\<rparr>, createRAM[0 := 42])"
    by (simp add: step_def exec_def exec_LOAD_def readMem_def memAddr_def outOfBounds_def
        toIndex_def getInt32_def reset_def program_of_def instr_def len w Let_def)
  have d: "step (reset\<lparr>R := (R reset)(0 := 16909060)\<rparr>)
          (program_of [instr ''STORE'' [MemLabel ''nowhere'', Reg (GPR 0)] 1]) createRAM
     = (None, reset\<lparr>R := (R reset)(0 := 16909060), IP := 1\<rparr>,
        createRAM[0 := 4, 1 := 3, 2 := 2, 3 := 1])"
    by (simp add: step_def exec_def exec_STORE_def outOfBounds_def toIndex_def setInt32_def
        reset_def program_of_def instr_def len v bytes Let_def)
       (simp add: numeral_2_eq_2)
  have e: "step reset (program_of [instr ''LOAD'' [Reg (GPR 0), MemLabel ''nowhere''] 1]) createRAM
     = (Some (AsmError 1 (UndefinedLabel ''nowhere'')), reset, createRAM)"
    by (simp add: step_def exec_def exec_LOAD_def lookupLabel_def reset_def program_of_def
        instr_def Let_def)
  show ?thesis using a b c d e by blast
qed

subsection \<open>The out-of-bounds store scenario\<close>

text \<open>
  C3. The claim: \<^verbatim>\<open>STORE [4090], R0\<close> on the memory of 4096 bytes fails the bounds check and
  leaves the memory unchanged. In fact 4090 + 4 = 4094 is within 4096: the step succeeds
  and writes the four bytes of R0 at 4090 to 4093.
\<close>

theorem store_4090_counterexample:
  "fst (step (reset\<lparr>R := (R reset)(0 := 16909060)\<rparr>)
         (program_of [instr ''STORE'' [Mem 4090 None, Reg (GPR 0)] 1]) createRAM) = None
   \<and> snd (snd (step (reset\<lparr>R := (R reset)(0 := 16909060)\<rparr>)
         (program_of [instr ''STORE'' [Mem 4090 None, Reg (GPR 0)] 1]) createRAM)) ! 4090 = 4
   \<and> createRAM ! 4090 = 0"
  by (simp add: step_def exec_def exec_STORE_def reset_def program_of_def instr_def createRAM_def
      memAddr_def outOfBounds_def toIndex_def RAM_SIZE_def setInt32_def byte_of_def Let_def)

text \<open>
  C3, amended. \<^verbatim>\<open>STORE [a], Rk\<close> with an absolute address \<open>a\<close> from 0 to 4092 succeeds and
  writes the word of the register at \<open>a\<close> to \<open>a + 3\<close>, so \<^verbatim>\<open>STORE [4090], R0\<close> succeeds; from
  4093 on it fails with the out-of-bounds error and the CPU and the memory are unchanged.
\<close>

theorem store_absolute_bounds:
  assumes "\<not> halted cpu" "0 \<le> IP cpu" "IP cpu < int (length (ast program))"
    and "ast program ! nat (IP cpu) = i" "op i = ''STORE''" "operands i = [Mem a None, Reg r]"
    and "0 \<le> a" "length ram = 4096"
  shows "(a \<le> 4092 \<longrightarrow>
            step cpu program ram =
              (None, cpu\<lparr>IP := IP cpu + 1\<rparr>,
               ram[nat a := byte_of (readReg cpu r) 0, nat a + 1 := byte_of (readReg cpu r) 1,
                   nat a + 2 := byte_of (readReg cpu r) 2, nat a + 3 := byte_of (readReg cpu r) 3]))
       \<and> (4093 \<le> a \<longrightarrow>
            step cpu program ram = (Some (AsmError (line i) (StoreOutOfBounds a)), cpu, ram))"
proof -
  have e: "exec i cpu program ram = exec_STORE [Mem a None, Reg r] cpu program ram"
    using assms(4-6) by (simp add: exec_def Let_def)
  have s: "storeAddr (Mem a None) cpu (labels program) = Some (Some a)"
    using assms(7) by (simp add: memAddr_def)
  show ?thesis
    using assms(4,7)
    by (simp add: step_running[OF assms(1-3)] e toIndex_def
        exec_STORE_at[OF assms(8) s, of "Reg r" "readReg cpu r"])
qed

theorem store_absolute_bounds_witness:
  "step reset (program_of [instr ''STORE'' [Mem 4090 None, Reg (GPR 0)] 1]) createRAM
      = (None, reset\<lparr>IP := 1\<rparr>, createRAM[4090 := 0, 4091 := 0, 4092 := 0, 4093 := 0])
   \<and> step reset (program_of [instr ''STORE'' [Mem 4093 None, Reg (GPR 0)] 1]) createRAM
      = (Some (AsmError 1 (StoreOutOfBounds 4093)), reset, createRAM)"
proof -
  have len: "length createRAM = 4096" by (simp add: createRAM_def)
  have a: "step reset (program_of [instr ''STORE'' [Mem 4090 None, Reg (GPR 0)] 1]) createRAM
      = (None, reset\<lparr>IP := 1\<rparr>, createRAM[4090 := 0, 4091 := 0, 4092 := 0, 4093 := 0])"
    using store_absolute_bounds[of reset "program_of [instr ''STORE'' [Mem 4090 None, Reg (GPR 0)] 1]"
        "instr ''STORE'' [Mem 4090 None, Reg (GPR 0)] 1" 4090 "GPR 0" createRAM, OF _ _ _ _ _ _ _ len]
    by (simp add: reset_def instr_def program_of_def byte_of_def)
  have b: "step reset (program_of [instr ''STORE'' [Mem 4093 None, Reg (GPR 0)] 1]) createRAM
      = (Some (AsmError 1 (StoreOutOfBounds 4093)), reset, createRAM)"
    using store_absolute_bounds[of reset "program_of [instr ''STORE'' [Mem 4093 None, Reg (GPR 0)] 1]"
        "instr ''STORE'' [Mem 4093 None, Reg (GPR 0)] 1" 4093 "GPR 0" createRAM, OF _ _ _ _ _ _ _ len]
    by (simp add: reset_def instr_def program_of_def)
  show ?thesis using a b by simp
qed


subsection \<open>Rounding to a double\<close>

lemma ilog2q_le:
  assumes "0 < A" "0 < B"
  shows "B * 2 ^ nat (ilog2q A B) \<le> A * 2 ^ nat (- ilog2q A B)"
proof -
  define d where "d = bitlen A - bitlen B"
  show ?thesis
  proof (cases "B * 2 ^ nat d \<le> A * 2 ^ nat (- d)")
    case True
    then show ?thesis by (simp add: ilog2q_def d_def Let_def)
  next
    case False
    then have e: "ilog2q A B = d - 1" by (simp add: ilog2q_def d_def Let_def)
    have a: "2 ^ nat (bitlen A - 1) \<le> A" and b: "B \<le> 2 ^ nat (bitlen B)"
      using bitlen_bounds[OF assms(1)] bitlen_bounds[OF assms(2)] by simp_all
    have pa: "0 < bitlen A"
    proof (rule ccontr)
      assume "\<not> 0 < bitlen A"
      then have "nat (bitlen A) = 0" by simp
      then show False using bitlen_bounds[OF assms(1)] assms(1) by simp
    qed
    have pb: "0 < bitlen B"
    proof (rule ccontr)
      assume "\<not> 0 < bitlen B"
      then have "nat (bitlen B) = 0" by simp
      then show False using bitlen_bounds[OF assms(2)] assms(2) by simp
    qed
    show ?thesis
    proof (cases "1 \<le> d")
      case True
      then have n: "nat (bitlen A - 1) = nat (bitlen B) + nat (d - 1)"
        using pa pb by (simp add: d_def nat_add_distrib[symmetric])
      have "B * 2 ^ nat (d - 1) \<le> 2 ^ nat (bitlen B) * 2 ^ nat (d - 1)"
        using b by (simp add: mult_right_mono)
      also have "\<dots> = 2 ^ nat (bitlen A - 1)" by (simp add: n power_add)
      also have "\<dots> \<le> A" by (rule a)
      finally show ?thesis using True by (simp add: e)
    next
      case False
      then have n: "nat (bitlen B) = nat (bitlen A - 1) + nat (1 - d)"
        using pa pb by (simp add: d_def nat_add_distrib[symmetric])
      have "B \<le> 2 ^ nat (bitlen A - 1) * 2 ^ nat (1 - d)"
        using b by (simp add: n power_add)
      also have "\<dots> \<le> A * 2 ^ nat (1 - d)"
        using a by (simp add: mult_right_mono)
      finally show ?thesis using False by (simp add: e)
    qed
  qed
qed


lemma round_floor:
  fixes A B :: int and k :: nat
  assumes A: "0 < A" "A \<le> 2 ^ 53" and B: "0 < B" and N: "2 ^ 52 * B \<le> A * 2 ^ k"
  defines "q \<equiv> (A * 2 ^ k) div B" and "r \<equiv> (A * 2 ^ k) mod B"
  defines "n \<equiv> (if B < 2 * r \<or> (2 * r = B \<and> odd q) then q + 1 else q)"
  shows "n div 2 ^ k = A div B" and "(- n) div 2 ^ k = (- A) div B"
proof -
  define c where "c = A div B"
  define p where "p = A mod B"
  define u where "u = (p * 2 ^ k) div B"
  have Aeq: "A = B * c + p" and p: "0 \<le> p" "p < B"
    using B by (simp_all add: c_def p_def)
  have split: "A * 2 ^ k = p * 2 ^ k + (c * 2 ^ k) * B"
    by (simp add: Aeq algebra_simps)
  have q_eq: "q = c * 2 ^ k + u"
    unfolding q_def u_def split using B by (simp add: div_mult_self1)
  have r_eq: "r = (p * 2 ^ k) mod B"
    unfolding r_def split by (simp only: mod_mult_self1)
  have ur: "p * 2 ^ k = B * u + r" and r: "0 \<le> r" "r < B"
    using B by (simp_all add: u_def r_eq)
  have u0: "0 \<le> u"
    using p B by (simp add: u_def pos_imp_zdiv_nonneg_iff)
  have u1: "u < 2 ^ k"
  proof -
    have "B * u \<le> p * 2 ^ k" using ur r by simp
    also have "\<dots> < B * 2 ^ k" using p by simp
    finally show ?thesis using B by simp
  qed
  have qB: "A * 2 ^ k = q * B + r"
    by (simp add: q_def r_def)
  have q52: "2 ^ 52 \<le> q"
  proof -
    have "(2 ^ 52 * B) div B \<le> (A * 2 ^ k) div B"
      using N B by (rule zdiv_mono1)
    then show ?thesis using B by (simp add: q_def)
  qed
  have K: False if b: "2 * 2 ^ k \<le> B" and rk: "(2::int) ^ k \<le> r"
  proof -
    have "2 ^ 52 * (2 * 2 ^ k) \<le> q * B"
      using q52 b by (intro mult_mono) simp_all
    then have "2 ^ 53 * 2 ^ k + 2 ^ k \<le> A * 2 ^ k"
      using rk by (simp add: qB)
    moreover have "A * 2 ^ k \<le> 2 ^ 53 * 2 ^ k"
      using A(2) by (intro mult_right_mono) simp_all
    ultimately have "(2::int) ^ k \<le> 0" by linarith
    then show False by simp
  qed
  have n_cases: "n = q \<or> n = q + 1" by (simp add: n_def)
  have up: "u + 1 < 2 ^ k" if "n = q + 1"
  proof (rule ccontr)
    assume "\<not> u + 1 < 2 ^ k"
    then have u: "u = 2 ^ k - 1" using u1 by simp
    have rr: "B \<le> 2 * r" using that by (auto simp: n_def split: if_splits)
    have "(B - p) * 2 ^ k = B - r" using ur by (simp add: u algebra_simps)
    moreover have "1 * 2 ^ k \<le> (B - p) * 2 ^ k"
      using p by (intro mult_right_mono) simp_all
    ultimately have "2 ^ k \<le> B - r" by simp
    then show False using K rr by linarith
  qed
  show "n div 2 ^ k = A div B"
  proof (rule int_div_pos_eq[where r="n - c * 2 ^ k"])
    show "n = 2 ^ k * (A div B) + (n - c * 2 ^ k)" by (simp add: c_def)
    show "0 \<le> n - c * 2 ^ k" using n_cases u0 by (auto simp: q_eq)
    show "n - c * 2 ^ k < 2 ^ k" using n_cases u1 up by (auto simp: q_eq)
  qed
  show "(- n) div 2 ^ k = (- A) div B"
  proof (cases "p = 0")
    case True
    then have "r = 0" "u = 0" by (simp_all add: r_eq u_def)
    then have "n = c * 2 ^ k" using B by (simp add: n_def q_eq)
    moreover have "(- A) div B = - c"
      using True B by (simp add: zdiv_zminus1_eq_if c_def p_def)
    moreover have "((- c) * 2 ^ k) div 2 ^ k = - c"
      by (rule nonzero_mult_div_cancel_right) simp
    ultimately show ?thesis by simp
  next
    case False
    then have d: "(- A) div B = - c - 1"
      using B by (simp add: zdiv_zminus1_eq_if c_def p_def)
    have low: "1 \<le> n - c * 2 ^ k"
    proof (rule ccontr)
      assume "\<not> 1 \<le> n - c * 2 ^ k"
      then have nq: "n = q" and u: "u = 0" using n_cases u0 by (auto simp: q_eq)
      have rr: "2 * r \<le> B" using nq by (auto simp: n_def split: if_splits)
      have "r = p * 2 ^ k" using ur by (simp add: u)
      moreover have "1 * 2 ^ k \<le> p * 2 ^ k"
        using p False by (intro mult_right_mono) simp_all
      ultimately have "2 ^ k \<le> r" by simp
      then show False using K rr by linarith
    qed
    have high: "n - c * 2 ^ k \<le> 2 ^ k" using n_cases u1 by (auto simp: q_eq)
    show ?thesis unfolding d
    proof (rule int_div_pos_eq[where r="2 ^ k - (n - c * 2 ^ k)"])
      show "- n = 2 ^ k * (- c - 1) + (2 ^ k - (n - c * 2 ^ k))" by (simp add: algebra_simps)
      show "0 \<le> 2 ^ k - (n - c * 2 ^ k)" using high by simp
      show "2 ^ k - (n - c * 2 ^ k) < 2 ^ k" using low by simp
    qed
  qed
qed


lemma floorDiv_exact:
  assumes "\<bar>a\<bar> \<le> 2 ^ 53" and "b \<noteq> 0"
  shows "floorDiv a b = a div b"
proof (cases "a = 0")
  case True
  then show ?thesis by (simp add: floorDiv_def)
next
  case False
  define A where "A = \<bar>a\<bar>"
  define B where "B = \<bar>b\<bar>"
  define e where "e = ilog2q A B"
  have A: "0 < A" "A \<le> 2 ^ 53" and B: "0 < B"
    using False assms by (simp_all add: A_def B_def)
  have le: "B * 2 ^ nat e \<le> A * 2 ^ nat (- e)"
    unfolding e_def using A(1) B by (rule ilog2q_le)
  have sg: "(sgn a * sgn b = 1 \<and> a div b = A div B) \<or> (sgn a * sgn b = - 1 \<and> a div b = (- A) div B)"
    using False assms(2) by (cases "0 < a"; cases "0 < b") (auto simp: A_def B_def)
  show ?thesis
  proof (cases "e \<le> 52")
    case True
    define k where "k = nat (52 - e)"
    have z: "nat (e - 52) = 0" using True by simp
    have N: "2 ^ 52 * B \<le> A * 2 ^ k"
    proof (cases "0 \<le> e")
      case True
      then have "nat e + k = 52" using \<open>e \<le> 52\<close> by (simp add: k_def)
      then have "(2::int) ^ 52 = 2 ^ nat e * 2 ^ k"
        unfolding power_add[symmetric] by simp
      then have "2 ^ 52 * B = (B * 2 ^ nat e) * 2 ^ k" by (simp only: mult_ac)
      also have "\<dots> \<le> A * 2 ^ k"
        using le True by (intro mult_right_mono) simp_all
      finally show ?thesis .
    next
      case False
      then have k: "k = nat (- e) + 52" by (simp add: k_def)
      have "B * 2 ^ 52 \<le> (A * 2 ^ nat (- e)) * 2 ^ 52"
        using le False by (intro mult_right_mono) simp_all
      then show ?thesis by (simp add: k power_add mult.commute)
    qed
    define n where "n = (if B < 2 * ((A * 2 ^ k) mod B) \<or> (2 * ((A * 2 ^ k) mod B) = B \<and> odd ((A * 2 ^ k) div B))
                         then (A * 2 ^ k) div B + 1 else (A * 2 ^ k) div B)"
    have f: "floorDiv a b = (sgn a * sgn b * n) div 2 ^ k"
      using False by (simp add: floorDiv_def Let_def A_def[symmetric] B_def[symmetric] e_def[symmetric]
          z k_def[symmetric] n_def)
    have r: "n div 2 ^ k = A div B" "(- n) div 2 ^ k = (- A) div B"
      unfolding n_def by (rule round_floor[OF A B N])+
    show ?thesis using sg r by (auto simp: f)
  next
    case False
    then have n53: "53 \<le> nat e" by simp
    have "(2::int) ^ 53 \<le> 2 ^ nat e" using n53 by (intro power_increasing) simp_all
    moreover have "1 * 2 ^ nat e \<le> B * 2 ^ nat e" using B by (intro mult_right_mono) simp_all
    moreover have "B * 2 ^ nat e \<le> A" using le False by simp
    ultimately have Aeq: "A = 2 ^ 53" and Be: "B * 2 ^ nat e = 2 ^ 53" and pe: "(2::int) ^ nat e = 2 ^ 53"
      using A(2) by linarith+
    have "nat e = 53" using power_inject_exp[of "2::int" "nat e" 53] pe by simp
    then have e: "e = 53" by simp
    have B1: "B = 1" using Be pe by simp
    have e': "ilog2q 9007199254740992 1 = 53"
      using e e_def Aeq B1 by simp
    have f: "floorDiv a b = sgn a * sgn b * 2 ^ 53"
      using \<open>a \<noteq> 0\<close> Aeq B1
      by (simp add: floorDiv_def Let_def A_def[symmetric] B_def[symmetric] e')
    show ?thesis using sg by (auto simp: f Aeq B1)
  qed
qed

text \<open>
  Beyond \<open>2 ^ 53\<close> the quotient is rounded before the floor is taken: \<open>2 ^ 54 - 2\<close> divided
  by 3 is \<open>6004799503160660\<close> and two thirds, and the double next to it is
  \<open>6004799503160661\<close>.
\<close>

lemma div_rounding_example:
  "floorDiv (2 ^ 54 - 2) 3 = 6004799503160661 \<and> (2 ^ 54 - 2) div 3 = (6004799503160660 :: int)"
  by code_simp

lemma dbl_big:
  assumes "2 ^ 53 < \<bar>x\<bar>"
  shows "2 ^ 53 \<le> \<bar>dbl x\<bar> \<and> sgn (dbl x) = sgn x"
proof -
  define n where "n = bitlen \<bar>x\<bar>"
  define e where "e = nat (n - 53)"
  define q where "q = \<bar>x\<bar> div 2 ^ e"
  define q' where "q' = (if 2 ^ (e - 1) < \<bar>x\<bar> mod 2 ^ e \<or> (\<bar>x\<bar> mod 2 ^ e = 2 ^ (e - 1) \<and> odd q) then q + 1 else q)"
  have pos: "0 < \<bar>x\<bar>"
    using assms by (smt (verit) zero_less_power)
  have b1: "2 ^ nat (n - 1) \<le> \<bar>x\<bar>" and b2: "\<bar>x\<bar> < 2 ^ nat n"
    using bitlen_bounds[OF pos] by (simp_all add: n_def)
  have "(2::int) ^ 53 < 2 ^ nat n"
    using assms b2 by linarith
  then have "53 < nat n"
    by (simp only: power_strict_increasing_iff) 
  then have n54: "54 \<le> n" by linarith
  then have ne: "nat (n - 1) = 52 + e" by (simp add: e_def) 
  have "(2::int) ^ 52 * 2 ^ e \<le> \<bar>x\<bar>"
    using b1 by (simp only: ne power_add)
  then have "(2 ^ 52 * 2 ^ e) div 2 ^ e \<le> \<bar>x\<bar> div (2::int) ^ e"
    by (rule zdiv_mono1) simp
  then have q52: "2 ^ 52 \<le> q" by (simp add: q_def)
  have q'q: "q \<le> q'" by (simp add: q'_def)
  have d: "dbl x = sgn x * q' * 2 ^ e"
    using assms by (simp add: dbl_def Let_def q'_def q_def e_def n_def)
  have e1: "(2::int) \<le> 2 ^ e"
    using n54 power_increasing[of 1 e "2::int"] by (simp add: e_def)
  have q'pos: "0 < q'" using q52 q'q by (smt (verit) zero_less_power)
  have "(2::int) ^ 52 * 2 \<le> q' * 2 ^ e"
    using q52 q'q e1 by (intro mult_mono) auto
  moreover have "\<bar>dbl x\<bar> = q' * 2 ^ e"
    using q'pos pos by (simp add: d abs_mult abs_sgn_eq)
  moreover have "sgn (dbl x) = sgn x"
    using q'pos by (simp add: d sgn_mult)
  ultimately show ?thesis by simp
qed

lemma dbl_neg_iff: "dbl x < 0 \<longleftrightarrow> x < 0"
proof (cases "\<bar>x\<bar> \<le> 2 ^ 53")
  case True then show ?thesis by (simp add: dbl_id)
next
  case False
  then have "sgn (dbl x) = sgn x" using dbl_big[of x] by simp
  then show ?thesis by (simp add: sgn_if split: if_splits)
qed

lemma dbl_bounds:
  shows dbl_gt: "2147483647 < dbl x \<longleftrightarrow> 2147483647 < x"
    and dbl_lt: "dbl x < - 2147483648 \<longleftrightarrow> x < - 2147483648"
    and dbl_abs: "2147483647 < \<bar>dbl x\<bar> \<longleftrightarrow> 2147483647 < \<bar>x\<bar>"
proof -
  have "(2147483647 < dbl x \<longleftrightarrow> 2147483647 < x) \<and> (dbl x < - 2147483648 \<longleftrightarrow> x < - 2147483648)
      \<and> (2147483647 < \<bar>dbl x\<bar> \<longleftrightarrow> 2147483647 < \<bar>x\<bar>)"
  proof (cases "\<bar>x\<bar> \<le> 2 ^ 53")
    case True then show ?thesis by (simp add: dbl_id)
  next
    case False
    then have a: "2 ^ 53 \<le> \<bar>dbl x\<bar>" "sgn (dbl x) = sgn x" "2 ^ 53 < \<bar>x\<bar>"
      using dbl_big[of x] by simp_all
    have s: "(dbl x < 0 \<longleftrightarrow> x < 0)" by (rule dbl_neg_iff)
    show ?thesis using a(1,3) s by simp linarith
  qed
  then show "2147483647 < dbl x \<longleftrightarrow> 2147483647 < x"
    and "dbl x < - 2147483648 \<longleftrightarrow> x < - 2147483648"
    and "2147483647 < \<bar>dbl x\<bar> \<longleftrightarrow> 2147483647 < \<bar>x\<bar>" by blast+
qed


subsection \<open>Call and return\<close>

lemma exec_CALL_cases:
  "exec_CALL ops cpu program ram = (fl, cpu', ram') \<Longrightarrow>
   (\<exists>m. fl = Throw m) \<or>
   (fl = Return \<and> SP cpu' = dbl (SP cpu - 4) \<and> 0 \<le> SP cpu'
      \<and> setInt32 ram (SP cpu') (IP cpu + 1) = Inr ram')"
  by (auto simp: exec_CALL_def Let_def split: if_splits sum.splits)

lemma step_CALL_ok:
  assumes "\<not> halted cpu" "0 \<le> IP cpu" "IP cpu < int (length (ast program))"
    and "op (ast program ! nat (IP cpu)) = ''CALL''"
    and "step cpu program ram = (None, cpu', ram')"
  shows "SP cpu' = dbl (SP cpu - 4) \<and> 0 \<le> SP cpu' \<and> setInt32 ram (SP cpu') (IP cpu + 1) = Inr ram'"
proof -
  obtain fl c m where e: "exec_CALL (operands (ast program ! nat (IP cpu))) cpu program ram = (fl, c, m)"
    by (metis prod_cases3)
  from exec_CALL_cases[OF e] assms(5) show ?thesis
    unfolding step_running[OF assms(1-3)] exec_CALL_eq[OF assms(4)] e
    by auto
qed

lemma step_RET_ok:
  assumes "\<not> halted cpu" "0 \<le> IP cpu" "IP cpu < int (length (ast program))"
    and "op (ast program ! nat (IP cpu)) = ''RET''"
    and "SP cpu < RAM_SIZE - 4" "getInt32 ram (SP cpu) = Inr v"
  shows "step cpu program ram = (None, cpu\<lparr>IP := v, SP := dbl (SP cpu + 4)\<rparr>, ram)"
  unfolding step_running[OF assms(1-3)] exec_RET_eq[OF assms(4)]
  using assms(5,6) by (simp add: exec_RET_def)

text \<open>
  C8. The claim: whenever a \<^verbatim>\<open>CALL\<close> at index \<open>k\<close> is followed by a \<^verbatim>\<open>RET\<close> executed with the
  stack pointer at the slot the \<^verbatim>\<open>CALL\<close> wrote, that word unmodified, the \<^verbatim>\<open>RET\<close> sets the
  instruction pointer to \<open>k + 1\<close> and restores the stack pointer. With the stack pointer at
  4096 before the \<^verbatim>\<open>CALL\<close>, the \<^verbatim>\<open>CALL\<close> succeeds and writes 1 at 4092, and the \<^verbatim>\<open>RET\<close>, with the
  stack pointer on that slot, fails with \<^verbatim>\<open>Stack underflow\<close> and changes nothing.
\<close>

theorem call_ret_counterexample:
  "step (reset\<lparr>SP := 4096\<rparr>)
        (program_of [instr ''CALL'' [Imm 1] 1, instr ''RET'' [] 2]) createRAM
     = (None, reset\<lparr>SP := 4092, IP := 1\<rparr>, createRAM[4092 := 1, 4093 := 0, 4094 := 0, 4095 := 0])
   \<and> getInt32 (createRAM[4092 := 1, 4093 := 0, 4094 := 0, 4095 := 0]) 4092 = Inr 1
   \<and> step (reset\<lparr>SP := 4092, IP := 1\<rparr>)
        (program_of [instr ''CALL'' [Imm 1] 1, instr ''RET'' [] 2])
        (createRAM[4092 := 1, 4093 := 0, 4094 := 0, 4095 := 0])
     = (Some (AsmError 2 StackUnderflow), reset\<lparr>SP := 4092, IP := 1\<rparr>,
        createRAM[4092 := 1, 4093 := 0, 4094 := 0, 4095 := 0])"
  by (simp add: step_def exec_def exec_CALL_def exec_RET_def reset_def program_of_def instr_def
      createRAM_def RAM_SIZE_def setInt32_def getInt32_def byte_of_def le32_def ToInt32_def dbl_id Let_def)

text \<open>
  C8, amended. Let a \<^verbatim>\<open>CALL\<close> at index \<open>k\<close>, executed with the stack pointer below 4096, succeed
  (and let \<open>k + 1\<close> be below \<open>2 ^ 31\<close>, so that it fits the word that is stored). Then the
  stack pointer is 4 lower and the word at the new stack pointer is \<open>k + 1\<close>; and a \<^verbatim>\<open>RET\<close>
  executed in any later state whose stack pointer is on that slot, the word there unmodified,
  succeeds, sets the instruction pointer to \<open>k + 1\<close> and the stack pointer to its value before
  the \<^verbatim>\<open>CALL\<close>, and changes nothing else.
\<close>

theorem call_ret_roundtrip:
  assumes "\<not> halted cpu1" "0 \<le> IP cpu1" "IP cpu1 < int (length (ast program))"
    and "op (ast program ! nat (IP cpu1)) = ''CALL''"
    and "step cpu1 program ram1 = (None, cpu2, ram2)"
    and "SP cpu1 < 4096" "IP cpu1 + 1 < 2 ^ 31"
    and "\<not> halted cpu3" "0 \<le> IP cpu3" "IP cpu3 < int (length (ast program))"
    and "op (ast program ! nat (IP cpu3)) = ''RET''"
    and "SP cpu3 = SP cpu2" "getInt32 ram3 (SP cpu2) = getInt32 ram2 (SP cpu2)"
  shows "SP cpu2 = SP cpu1 - 4
       \<and> getInt32 ram2 (SP cpu2) = Inr (IP cpu1 + 1)
       \<and> step cpu3 program ram3 = (None, cpu3\<lparr>IP := IP cpu1 + 1, SP := SP cpu1\<rparr>, ram3)"
proof -
  have c: "SP cpu2 = dbl (SP cpu1 - 4)" "0 \<le> SP cpu2"
    "setInt32 ram1 (SP cpu2) (IP cpu1 + 1) = Inr ram2"
    using step_CALL_ok[OF assms(1-5)] by blast+
  have "\<not> SP cpu1 - 4 < 0"
    using c(1,2) dbl_neg_iff[of "SP cpu1 - 4"] by simp
  then have small: "\<bar>SP cpu1 - 4\<bar> \<le> 2 ^ 53" "\<bar>SP cpu1 - 4 + 4\<bar> \<le> 2 ^ 53"
    using assms(6) by simp_all
  have sp2: "SP cpu2 = SP cpu1 - 4"
    using c(1) dbl_id[OF small(1)] by simp
  have "inInt32 (IP cpu1 + 1)"
    using assms(2,7) by (simp add: inInt32_def)
  then have w: "getInt32 ram2 (SP cpu2) = Inr (IP cpu1 + 1)"
    using getInt32_setInt32[OF c(3)] by (simp add: ToInt32_id)
  have "SP cpu3 < RAM_SIZE - 4"
    using assms(6,12) sp2 by (simp add: RAM_SIZE_def)
  moreover have "getInt32 ram3 (SP cpu3) = Inr (IP cpu1 + 1)"
    using w assms(12,13) by simp
  ultimately have "step cpu3 program ram3 =
      (None, cpu3\<lparr>IP := IP cpu1 + 1, SP := dbl (SP cpu3 + 4)\<rparr>, ram3)"
    by (rule step_RET_ok[OF assms(8-11)])
  moreover have "dbl (SP cpu3 + 4) = SP cpu1"
    using assms(12) sp2 dbl_id[OF small(2)] by simp
  ultimately show ?thesis using sp2 w by simp
qed

theorem call_ret_roundtrip_witness:
  "step (reset\<lparr>SP := 4088, IP := 1\<rparr>)
        (program_of [instr ''CALL'' [Imm 1] 1, instr ''RET'' [] 2])
        (createRAM[4088 := 1, 4089 := 0, 4090 := 0, 4091 := 0])
     = (None, reset\<lparr>SP := 4092, IP := 1\<rparr>, createRAM[4088 := 1, 4089 := 0, 4090 := 0, 4091 := 0])"
proof -
  let ?P = "program_of [instr ''CALL'' [Imm 1] 1, instr ''RET'' [] 2]"
  let ?m = "createRAM[4088 := 1, 4089 := 0, 4090 := 0, 4091 := 0]"
  have s: "step reset ?P createRAM = (None, reset\<lparr>SP := 4088, IP := 1\<rparr>, ?m)"
    by (simp add: step_def exec_def exec_CALL_def reset_def program_of_def instr_def
      createRAM_def RAM_SIZE_def setInt32_def byte_of_def dbl_id Let_def)
  have "step (reset\<lparr>SP := 4088, IP := 1\<rparr>) ?P ?m
          = (None, reset\<lparr>SP := 4088, IP := 1\<rparr>\<lparr>IP := IP reset + 1, SP := SP reset\<rparr>, ?m)"
    using call_ret_roundtrip[where ?cpu1.0 = reset and program = ?P and ?ram1.0 = createRAM
        and ?cpu2.0 = "reset\<lparr>SP := 4088, IP := 1\<rparr>" and ?ram2.0 = ?m
        and ?cpu3.0 = "reset\<lparr>SP := 4088, IP := 1\<rparr>" and ?ram3.0 = ?m, OF _ _ _ _ s]
    by (simp add: reset_def program_of_def instr_def RAM_SIZE_def)
  then show ?thesis by (simp add: reset_def RAM_SIZE_def)
qed


subsection \<open>Arithmetic instructions\<close>

lemma not_overflows: "\<bar>x\<bar> \<le> 2 ^ 53 \<Longrightarrow> \<not> overflows x"
  by (simp add: overflows_def)

lemma exec_arith_ok:
  assumes "resolveOperand src cpu ram (labels program) = Inr s"
    and "\<not> overflows (f (readReg cpu d) s)"
  shows "exec_arith name f fo [Reg d, src] cpu program ram =
           (Break, setFlags (writeReg cpu d (dbl (f (readReg cpu d) s))) (dbl (f (readReg cpu d) s)) fo, ram)"
  using assms by (simp add: exec_arith_def Let_def)

lemma exec_unary_ok:
  assumes "\<not> overflows (readReg cpu d + k)"
  shows "exec_unary name k fo [Reg d] cpu program ram =
           (Break, setFlags (writeReg cpu d (dbl (readReg cpu d + k))) (dbl (readReg cpu d + k)) fo, ram)"
  using assms by (simp add: exec_unary_def Let_def)

lemma exec_arith_done:
  assumes "exec_arith name f fo [Reg d, src] cpu program ram = (fl, c, m)"
    and "fl = Break \<or> fl = Return"
    and "resolveOperand src cpu ram (labels program) = Inr s"
  shows "c = setFlags (writeReg cpu d (dbl (f (readReg cpu d) s))) (dbl (f (readReg cpu d) s)) fo"
  using assms by (auto simp: exec_arith_def Let_def split: if_splits)

lemma exec_DIV_ok:
  assumes "resolveOperand src cpu ram (labels program) = Inr s" "s \<noteq> 0" "\<bar>readReg cpu d\<bar> \<le> 2 ^ 53"
  shows "exec_DIV [Reg d, src] cpu program ram =
           (Break, setFlags (writeReg cpu d (readReg cpu d div s)) (readReg cpu d div s) FDiv, ram)"
  using assms by (simp add: exec_DIV_def Let_def floorDiv_exact)

lemma readReg_writeReg: "readReg (writeReg cpu d v) d = (case d of GPR k \<Rightarrow> ToInt32 v | _ \<Rightarrow> v)"
  by (cases d) (simp_all add: ToInt32_def)

lemma readReg_setFlags: "readReg (setFlags cpu v fo) d = readReg cpu d"
  by (cases d) (simp_all add: setFlags_def Let_def)

lemma readReg_IP: "readReg (cpu\<lparr>IP := v\<rparr>) d = readReg cpu d"
  by (cases d) simp_all

lemma IP_setFlags: "IP (setFlags cpu v fo) = IP cpu"
  by (simp add: setFlags_def Let_def)

lemma exec_arith_ops:
  "op i = ''ADD'' \<Longrightarrow> exec i cpu program ram = exec_arith ''ADD'' (\<lambda>a b. a + b) FAdd (operands i) cpu program ram"
  "op i = ''SUB'' \<Longrightarrow> exec i cpu program ram = exec_arith ''SUB'' (\<lambda>a b. a - b) FSub (operands i) cpu program ram"
  "op i = ''MUL'' \<Longrightarrow> exec i cpu program ram = exec_arith ''MUL'' (\<lambda>a b. a * b) FMul (operands i) cpu program ram"
  "op i = ''DIV'' \<Longrightarrow> exec i cpu program ram = exec_DIV (operands i) cpu program ram"
  "op i = ''INC'' \<Longrightarrow> exec i cpu program ram = exec_unary ''INC'' 1 FAdd (operands i) cpu program ram"
  "op i = ''DEC'' \<Longrightarrow> exec i cpu program ram = exec_unary ''DEC'' (- 1) FSub (operands i) cpu program ram"
  by (simp_all add: exec_def Let_def)


lemma exactResult_simps:
  "exactResult ''ADD'' a b = a + b" "exactResult ''SUB'' a b = a - b"
  "exactResult ''MUL'' a b = a * b" "exactResult ''DIV'' a b = a div b"
  "exactResult ''INC'' a b = a + 1" "exactResult ''DEC'' a b = a - 1"
  by (simp_all add: exactResult_def)

lemma step_Break:
  assumes "\<not> halted cpu" "0 \<le> IP cpu" "IP cpu < int (length (ast program))"
    and "exec (ast program ! nat (IP cpu)) cpu program ram = (Break, c, m)"
  shows "step cpu program ram = (None, c\<lparr>IP := IP c + 1\<rparr>, m)"
  by (simp add: step_running[OF assms(1-3)] assms(4))

text \<open>
  C6. The claim: for every arithmetic instruction and every destination register, R0 to R7,
  SP or BP, the stored result is the mathematical result reduced to 32 bits. SP and BP are
  plain numbers in the CPU record: \<^verbatim>\<open>ADD SP, #1\<close> at \<open>SP = 2147483647\<close> stores 2147483648, where
  the 32-bit reduction is \<open>- 2147483648\<close>. And the arithmetic is that of doubles, which rounds
  beyond \<open>2 ^ 53\<close>: \<^verbatim>\<open>MUL R0, R0\<close> at R0 = 2147483647 stores 0, where the exact product reduced
  to 32 bits is 1; \<^verbatim>\<open>DIV SP, #3\<close> at \<open>SP = 2 ^ 54 - 2\<close> stores 6004799503160661, where the exact
  quotient is 6004799503160660.
\<close>

theorem add_sp_counterexample:
  "SP (fst (snd (step (reset\<lparr>SP := 2147483647\<rparr>)
                     (program_of [instr ''ADD'' [Reg RSP, Imm 1] 1]) createRAM))) = 2147483648
   \<and> ToInt32 (exactResult ''ADD'' 2147483647 1) = - 2147483648
   \<and> sint (R (fst (snd (step (reset\<lparr>R := (R reset)(0 := 2147483647)\<rparr>)
                     (program_of [instr ''MUL'' [Reg (GPR 0), Reg (GPR 0)] 1]) createRAM))) 0) = 0
   \<and> ToInt32 (exactResult ''MUL'' 2147483647 2147483647) = 1
   \<and> SP (fst (snd (step (reset\<lparr>SP := 18014398509481982\<rparr>)
                     (program_of [instr ''DIV'' [Reg RSP, Imm 3] 1]) createRAM))) = 6004799503160661
   \<and> exactResult ''DIV'' 18014398509481982 3 = 6004799503160660"
proof -
  have a: "SP (fst (snd (step (reset\<lparr>SP := 2147483647\<rparr>)
                     (program_of [instr ''ADD'' [Reg RSP, Imm 1] 1]) createRAM))) = 2147483648
   \<and> ToInt32 (exactResult ''ADD'' 2147483647 1) = - 2147483648"
    by (simp add: step_def exec_def exec_arith_def setFlags_def reset_def program_of_def instr_def
        dbl_id overflows_def exactResult_def ToInt32_def Let_def)
  have m: "dbl 4611686014132420609 = 4611686014132420608" by code_simp
  have v: "sint (2147483647 :: 32 word) = 2147483647" by simp
  have b: "sint (R (fst (snd (step (reset\<lparr>R := (R reset)(0 := 2147483647)\<rparr>)
                     (program_of [instr ''MUL'' [Reg (GPR 0), Reg (GPR 0)] 1]) createRAM))) 0) = 0
   \<and> ToInt32 (exactResult ''MUL'' 2147483647 2147483647) = 1"
    by (simp add: step_def exec_def exec_arith_def setFlags_def reset_def program_of_def instr_def
        v m overflows_def exactResult_def ToInt32_def Let_def)
  have q: "floorDiv 18014398509481982 3 = 6004799503160661" by code_simp
  have c: "SP (fst (snd (step (reset\<lparr>SP := 18014398509481982\<rparr>)
                     (program_of [instr ''DIV'' [Reg RSP, Imm 3] 1]) createRAM))) = 6004799503160661
   \<and> exactResult ''DIV'' 18014398509481982 3 = 6004799503160660"
    by (simp add: step_def exec_def exec_DIV_def setFlags_def reset_def program_of_def instr_def
        q exactResult_def Let_def)
  show ?thesis using a b c by blast
qed

text \<open>
  C6, amended. Let an arithmetic instruction (\<^verbatim>\<open>ADD\<close>, \<^verbatim>\<open>SUB\<close>, \<^verbatim>\<open>MUL\<close>, \<^verbatim>\<open>DIV\<close> with a register
  destination and a source that resolves, the divisor not 0; \<^verbatim>\<open>INC\<close>, \<^verbatim>\<open>DEC\<close> with a register
  operand) have an exact result of magnitude at most \<open>2 ^ 53\<close>, and for \<^verbatim>\<open>DIV\<close> a dividend of
  magnitude at most \<open>2 ^ 53\<close> too: the range in which the arithmetic on doubles is exact. Then
  the step succeeds, and afterwards a destination among R0 to R7 holds the exact result
  reduced to 32-bit two's complement, while a destination SP or BP holds the exact result
  itself, not reduced.
\<close>

theorem arith_result_stored:
  assumes "\<not> halted cpu" "0 \<le> IP cpu" "IP cpu < int (length (ast program))"
    and "ast program ! nat (IP cpu) = i"
    and "(op i \<in> {''ADD'', ''SUB'', ''MUL'', ''DIV''} \<and> operands i = [Reg d, src]
            \<and> resolveOperand src cpu ram (labels program) = Inr s
            \<and> (op i = ''DIV'' \<longrightarrow> s \<noteq> 0 \<and> \<bar>readReg cpu d\<bar> \<le> 2 ^ 53))
         \<or> (op i \<in> {''INC'', ''DEC''} \<and> operands i = [Reg d])"
    and "\<bar>exactResult (op i) (readReg cpu d) s\<bar> \<le> 2 ^ 53"
  shows "\<exists>cpu'. step cpu program ram = (None, cpu', ram)
           \<and> readReg cpu' d =
               (case d of GPR k \<Rightarrow> ToInt32 (exactResult (op i) (readReg cpu d) s)
                        | _ \<Rightarrow> exactResult (op i) (readReg cpu d) s)"
proof -
  let ?e = "exactResult (op i) (readReg cpu d) s"
  have "\<exists>fo. exec i cpu program ram = (Break, setFlags (writeReg cpu d ?e) ?e fo, ram)"
    using assms(5)
  proof (elim disjE conjE)
    assume o: "op i \<in> {''ADD'', ''SUB'', ''MUL'', ''DIV''}" and ops: "operands i = [Reg d, src]"
      and r: "resolveOperand src cpu ram (labels program) = Inr s"
      and dv: "op i = ''DIV'' \<longrightarrow> s \<noteq> 0 \<and> \<bar>readReg cpu d\<bar> \<le> 2 ^ 53"
    from o consider "op i = ''ADD''" | "op i = ''SUB''" | "op i = ''MUL''" | "op i = ''DIV''" by auto
    then show ?thesis
    proof cases
      case 1 then show ?thesis
        using assms(6) not_overflows[of "readReg cpu d + s"]
        by (auto simp: exec_arith_ops ops exec_arith_ok[OF r] exactResult_simps dbl_id)
    next
      case 2 then show ?thesis
        using assms(6) not_overflows[of "readReg cpu d - s"]
        by (auto simp: exec_arith_ops ops exec_arith_ok[OF r] exactResult_simps dbl_id)
    next
      case 3 then show ?thesis
        using assms(6) not_overflows[of "readReg cpu d * s"]
        by (auto simp: exec_arith_ops ops exec_arith_ok[OF r] exactResult_simps dbl_id)
    next
      case 4 then show ?thesis
        using dv by (auto simp: exec_arith_ops ops exec_DIV_ok[OF r] exactResult_simps)
    qed
  next
    assume o: "op i \<in> {''INC'', ''DEC''}" and ops: "operands i = [Reg d]"
    from o consider "op i = ''INC''" | "op i = ''DEC''" by auto
    then show ?thesis
    proof cases
      case 1 then show ?thesis
        using assms(6) not_overflows[of "readReg cpu d + 1"]
        by (auto simp: exec_arith_ops ops exec_unary_ok exactResult_simps dbl_id)
    next
      case 2 then show ?thesis
        using assms(6) not_overflows[of "readReg cpu d - 1"]
        by (auto simp: exec_arith_ops ops exec_unary_ok exactResult_simps dbl_id)
    qed
  qed
  then obtain fo where e: "exec (ast program ! nat (IP cpu)) cpu program ram
      = (Break, setFlags (writeReg cpu d ?e) ?e fo, ram)"
    using assms(4) by auto
  show ?thesis
    unfolding step_Break[OF assms(1-3) e]
    by (simp add: readReg_IP readReg_setFlags readReg_writeReg)
qed

theorem arith_result_stored_witness:
  "(\<exists>cpu'. step (reset\<lparr>SP := 2147483647\<rparr>) (program_of [instr ''ADD'' [Reg RSP, Imm 1] 1]) createRAM
        = (None, cpu', createRAM) \<and> SP cpu' = 2147483648)
   \<and> (\<exists>cpu'. step (reset\<lparr>R := (R reset)(3 := 2147483647)\<rparr>)
                (program_of [instr ''INC'' [Reg (GPR 3)] 1]) createRAM
        = (None, cpu', createRAM) \<and> sint (R cpu' 3) = - 2147483648)
   \<and> (\<exists>cpu'. step (reset\<lparr>SP := - 7\<rparr>) (program_of [instr ''DIV'' [Reg RSP, Imm 2] 1]) createRAM
        = (None, cpu', createRAM) \<and> SP cpu' = - 4)"
proof -
  have a: "\<exists>cpu'. step (reset\<lparr>SP := 2147483647\<rparr>) (program_of [instr ''ADD'' [Reg RSP, Imm 1] 1]) createRAM
        = (None, cpu', createRAM) \<and> SP cpu' = 2147483648"
    using arith_result_stored[where cpu="reset\<lparr>SP := 2147483647\<rparr>"
        and program="program_of [instr ''ADD'' [Reg RSP, Imm 1] 1]"
        and i="instr ''ADD'' [Reg RSP, Imm 1] 1" and d=RSP and src="Imm 1" and s=1 and ram=createRAM]
    by (simp add: reset_def program_of_def instr_def exactResult_def)
  have s: "sint (2147483647 :: 32 word) = 2147483647" by simp
  have b: "\<exists>cpu'. step (reset\<lparr>R := (R reset)(3 := 2147483647)\<rparr>)
                (program_of [instr ''INC'' [Reg (GPR 3)] 1]) createRAM
        = (None, cpu', createRAM) \<and> sint (R cpu' 3) = - 2147483648"
    using arith_result_stored[where cpu="reset\<lparr>R := (R reset)(3 := 2147483647)\<rparr>"
        and program="program_of [instr ''INC'' [Reg (GPR 3)] 1]"
        and i="instr ''INC'' [Reg (GPR 3)] 1" and d="GPR 3" and s=0 and ram=createRAM]
    by (simp add: reset_def program_of_def instr_def exactResult_def ToInt32_def s)
  have c: "\<exists>cpu'. step (reset\<lparr>SP := - 7\<rparr>) (program_of [instr ''DIV'' [Reg RSP, Imm 2] 1]) createRAM
        = (None, cpu', createRAM) \<and> SP cpu' = - 4"
    using arith_result_stored[where cpu="reset\<lparr>SP := - 7\<rparr>"
        and program="program_of [instr ''DIV'' [Reg RSP, Imm 2] 1]"
        and i="instr ''DIV'' [Reg RSP, Imm 2] 1" and d=RSP and src="Imm 2" and s=2 and ram=createRAM]
    by (simp add: reset_def program_of_def instr_def exactResult_def)
  show ?thesis using a b c by blast
qed


subsection \<open>Carry and overflow flags\<close>

lemma F_writeReg: "F (writeReg cpu r v) = F cpu"
  by (cases r) simp_all

lemma flags_setFlags_addsub:
  "fo = FAdd \<or> fo = FSub \<Longrightarrow>
   OF (F (setFlags cpu (dbl e) fo)) = (\<not> inInt32 e) \<and> CF (F (setFlags cpu (dbl e) fo)) = (2147483647 < \<bar>e\<bar>)"
  using dbl_gt[of e] dbl_lt[of e] dbl_abs[of e]
  by (auto simp: setFlags_def Let_def inInt32_def)

lemma flags_setFlags_other:
  "fo \<noteq> FAdd \<Longrightarrow> fo \<noteq> FSub \<Longrightarrow>
   OF (F (setFlags cpu v fo)) = OF (F cpu) \<and> CF (F (setFlags cpu v fo)) = CF (F cpu)"
  by (simp add: setFlags_def Let_def)

lemma exec_MOV_flags: "exec_MOV ops cpu program ram = (fl, c, m) \<Longrightarrow> F c = F cpu"
  by (auto simp: exec_MOV_def F_writeReg split: if_splits sum.splits Operand.splits)

lemma exec_LOAD_flags: "exec_LOAD ops cpu program ram = (fl, c, m) \<Longrightarrow> F c = F cpu"
  by (auto simp: exec_LOAD_def F_writeReg split: if_splits sum.splits Operand.splits)

lemma exec_LEA_flags: "exec_LEA ops cpu program ram = (fl, c, m) \<Longrightarrow> F c = F cpu"
  by (auto simp: exec_LEA_def F_writeReg split: if_splits sum.splits Operand.splits regidx.splits)

lemma exec_STORE_flags: "exec_STORE ops cpu program ram = (fl, c, m) \<Longrightarrow> F c = F cpu"
  by (auto simp: exec_STORE_def split: if_splits sum.splits option.splits)

lemma exec_MUL_flags:
  "exec_arith name f FMul ops cpu program ram = (fl, c, m) \<Longrightarrow>
   OF (F c) = OF (F cpu) \<and> CF (F c) = CF (F cpu)"
  by (auto simp: exec_arith_def Let_def flags_setFlags_other F_writeReg
      split: if_splits sum.splits Operand.splits)

lemma exec_DIV_flags:
  "exec_DIV ops cpu program ram = (fl, c, m) \<Longrightarrow> fl = Break \<or> fl = Return \<Longrightarrow>
   OF (F c) = OF (F cpu) \<and> CF (F c) = CF (F cpu)"
  by (auto simp: exec_DIV_def Let_def flags_setFlags_other F_writeReg
      split: if_splits sum.splits Operand.splits)

lemma exec_other_ops:
  "op i = ''MOV'' \<Longrightarrow> exec i cpu program ram = exec_MOV (operands i) cpu program ram"
  "op i = ''LOAD'' \<Longrightarrow> exec i cpu program ram = exec_LOAD (operands i) cpu program ram"
  "op i = ''LEA'' \<Longrightarrow> exec i cpu program ram = exec_LEA (operands i) cpu program ram"
  "op i = ''CMP'' \<Longrightarrow> exec i cpu program ram = exec_CMP (operands i) cpu program ram"
  by (simp_all add: exec_def Let_def)

lemma step_ok_exec:
  assumes "\<not> halted cpu" "0 \<le> IP cpu" "IP cpu < int (length (ast program))"
    and "step cpu program ram = (None, cpu', ram')"
  shows "\<exists>fl c. exec (ast program ! nat (IP cpu)) cpu program ram = (fl, c, ram')
           \<and> (fl = Break \<or> fl = Return) \<and> F cpu' = F c"
  using assms(4) unfolding step_running[OF assms(1-3)]
  by (auto split: prod.splits flow.splits)

lemma exec_keeps_carry:
  assumes "op i \<in> {''MUL'', ''DIV'', ''MOV'', ''LOAD'', ''LEA'', ''STORE''}"
    and "exec i cpu program ram = (fl, c, m)" "fl = Break \<or> fl = Return"
  shows "OF (F c) = OF (F cpu) \<and> CF (F c) = CF (F cpu)"
proof -
  from assms(1) consider "op i = ''MUL''" | "op i = ''DIV''" | "op i = ''MOV''"
    | "op i = ''LOAD''" | "op i = ''LEA''" | "op i = ''STORE''" by auto
  then show ?thesis
  proof cases
    case 1 then show ?thesis using assms(2) exec_MUL_flags by (simp add: exec_arith_ops)
  next
    case 2 then show ?thesis using assms(2,3) exec_DIV_flags by (simp add: exec_arith_ops)
  next
    case 3 then show ?thesis using assms(2) exec_MOV_flags by (simp add: exec_other_ops)
  next
    case 4 then show ?thesis using assms(2) exec_LOAD_flags by (simp add: exec_other_ops)
  next
    case 5 then show ?thesis using assms(2) exec_LEA_flags by (simp add: exec_other_ops)
  next
    case 6 then show ?thesis using assms(2) exec_STORE_flags by (simp add: exec_STORE_eq)
  qed
qed

text \<open>
  C5. The claim: after \<^verbatim>\<open>ADD\<close>, \<^verbatim>\<open>SUB\<close>, \<^verbatim>\<open>MUL\<close> or \<^verbatim>\<open>DIV\<close> the carry and the overflow flag are set
  exactly when the exact result does not fit the signed 32-bit range, and after a move they
  are false. \<^verbatim>\<open>setFlags\<close> touches the two flags for the operations add and sub only: after
  \<^verbatim>\<open>MUL R0, R0\<close> with R0 = 65536 the exact result \<open>2 ^ 32\<close> does not fit, and after
  \<^verbatim>\<open>DIV R0, #-1\<close> with R0 = \<open>- 2147483648\<close> the exact result 2147483648 does not fit, and both
  flags are still false. The carry test is on the magnitude: \<^verbatim>\<open>ADD R0, #-1\<close> with
  R0 = \<open>- 2147483647\<close> gives \<open>- 2147483648\<close>, which fits, with the carry flag set. And a move does
  not clear the flags: after \<^verbatim>\<open>ADD R0, #1\<close> with R0 = 2147483647 and then \<^verbatim>\<open>MOV R1, #0\<close> both
  are still set.
\<close>

theorem carry_overflow_counterexample:
  "\<not> inInt32 (exactResult ''MUL'' 65536 65536)
   \<and> \<not> CF (F (fst (snd (step (reset\<lparr>R := (R reset)(0 := 65536)\<rparr>)
                          (program_of [instr ''MUL'' [Reg (GPR 0), Reg (GPR 0)] 1]) createRAM))))
   \<and> \<not> OF (F (fst (snd (step (reset\<lparr>R := (R reset)(0 := 65536)\<rparr>)
                          (program_of [instr ''MUL'' [Reg (GPR 0), Reg (GPR 0)] 1]) createRAM))))
   \<and> \<not> inInt32 (exactResult ''DIV'' (- 2147483648) (- 1))
   \<and> sint (- 2147483648 :: 32 word) = - 2147483648
   \<and> fst (step (reset\<lparr>R := (R reset)(0 := - 2147483648)\<rparr>)
              (program_of [instr ''DIV'' [Reg (GPR 0), Imm (- 1)] 1]) createRAM) = None
   \<and> \<not> CF (F (fst (snd (step (reset\<lparr>R := (R reset)(0 := - 2147483648)\<rparr>)
                          (program_of [instr ''DIV'' [Reg (GPR 0), Imm (- 1)] 1]) createRAM))))
   \<and> \<not> OF (F (fst (snd (step (reset\<lparr>R := (R reset)(0 := - 2147483648)\<rparr>)
                          (program_of [instr ''DIV'' [Reg (GPR 0), Imm (- 1)] 1]) createRAM))))
   \<and> inInt32 (exactResult ''ADD'' (- 2147483647) (- 1))
   \<and> sint (- 2147483647 :: 32 word) = - 2147483647
   \<and> CF (F (fst (snd (step (reset\<lparr>R := (R reset)(0 := - 2147483647)\<rparr>)
                        (program_of [instr ''ADD'' [Reg (GPR 0), Imm (- 1)] 1]) createRAM))))
   \<and> fst (stepN 2 (reset\<lparr>R := (R reset)(0 := 2147483647)\<rparr>)
              (program_of [instr ''ADD'' [Reg (GPR 0), Imm 1] 1, instr ''MOV'' [Reg (GPR 1), Imm 0] 2])
              createRAM) = None
   \<and> CF (F (fst (snd (stepN 2 (reset\<lparr>R := (R reset)(0 := 2147483647)\<rparr>)
              (program_of [instr ''ADD'' [Reg (GPR 0), Imm 1] 1, instr ''MOV'' [Reg (GPR 1), Imm 0] 2])
              createRAM))))
   \<and> OF (F (fst (snd (stepN 2 (reset\<lparr>R := (R reset)(0 := 2147483647)\<rparr>)
              (program_of [instr ''ADD'' [Reg (GPR 0), Imm 1] 1, instr ''MOV'' [Reg (GPR 1), Imm 0] 2])
              createRAM))))"
proof -
  have s: "sint (- 2147483647 :: 32 word) = - 2147483647" "sint (65536 :: 32 word) = 65536"
    "sint (- 2147483648 :: 32 word) = - 2147483648" "sint (2147483647 :: 32 word) = 2147483647"
    by simp_all
  have n: "\<not> overflows 4294967296" "\<not> overflows (- 2147483648)" "\<not> overflows 2147483648"
    by (simp_all add: overflows_def)
  have fd: "floorDiv (- 2147483648) (- 1) = 2147483648"
    by (simp add: floorDiv_exact)
  show ?thesis
    by (simp add: s n fd numeral_2_eq_2 step_def exec_def exec_arith_def exec_DIV_def exec_MOV_def setFlags_def
        reset_def program_of_def instr_def dbl_id exactResult_def inInt32_def Let_def)
qed

text \<open>
  C5, amended. After a successful \<^verbatim>\<open>ADD\<close> or \<^verbatim>\<open>SUB\<close> the overflow flag is set exactly when the
  exact result does not fit the signed 32-bit range, and the carry flag exactly when the
  magnitude of the exact result exceeds \<open>2 ^ 31 - 1\<close>. A successful \<^verbatim>\<open>MUL\<close> or \<^verbatim>\<open>DIV\<close> does not
  compute the two flags: it leaves both as they were before the instruction, and so does a
  successful \<^verbatim>\<open>MOV\<close>, \<^verbatim>\<open>LOAD\<close>, \<^verbatim>\<open>LEA\<close> or \<^verbatim>\<open>STORE\<close>.
\<close>

theorem carry_overflow_flags:
  assumes "\<not> halted cpu" "0 \<le> IP cpu" "IP cpu < int (length (ast program))"
    and "ast program ! nat (IP cpu) = i"
    and "step cpu program ram = (None, cpu', ram')"
  shows "(op i \<in> {''ADD'', ''SUB''} \<and> operands i = [Reg d, src]
            \<and> resolveOperand src cpu ram (labels program) = Inr s \<longrightarrow>
            OF (F cpu') = (\<not> inInt32 (exactResult (op i) (readReg cpu d) s))
          \<and> CF (F cpu') = (2147483647 < \<bar>exactResult (op i) (readReg cpu d) s\<bar>))
       \<and> (op i \<in> {''MUL'', ''DIV'', ''MOV'', ''LOAD'', ''LEA'', ''STORE''} \<longrightarrow>
            OF (F cpu') = OF (F cpu) \<and> CF (F cpu') = CF (F cpu))"
proof -
  obtain fl c where e: "exec i cpu program ram = (fl, c, ram')" "fl = Break \<or> fl = Return"
    and f: "F cpu' = F c"
    using step_ok_exec[OF assms(1-3,5)] assms(4) by auto
  have a: "OF (F cpu') = (\<not> inInt32 (exactResult (op i) (readReg cpu d) s))
          \<and> CF (F cpu') = (2147483647 < \<bar>exactResult (op i) (readReg cpu d) s\<bar>)"
    if "op i \<in> {''ADD'', ''SUB''}" "operands i = [Reg d, src]"
      "resolveOperand src cpu ram (labels program) = Inr s"
  proof -
    from that(1) consider "op i = ''ADD''" | "op i = ''SUB''" by auto
    then show ?thesis
    proof cases
      case 1
      then have "exec_arith ''ADD'' (\<lambda>a b. a + b) FAdd [Reg d, src] cpu program ram = (fl, c, ram')"
        using e(1) by (simp add: exec_arith_ops that(2))
      from exec_arith_done[OF this e(2) that(3)] show ?thesis
        using flags_setFlags_addsub[of FAdd _ "readReg cpu d + s"]
        by (simp add: f 1 exactResult_simps)
    next
      case 2
      then have "exec_arith ''SUB'' (\<lambda>a b. a - b) FSub [Reg d, src] cpu program ram = (fl, c, ram')"
        using e(1) by (simp add: exec_arith_ops that(2))
      from exec_arith_done[OF this e(2) that(3)] show ?thesis
        using flags_setFlags_addsub[of FSub _ "readReg cpu d - s"]
        by (simp add: f 2 exactResult_simps)
    qed
  qed
  have c: "OF (F cpu') = OF (F cpu) \<and> CF (F cpu') = CF (F cpu)"
    if "op i \<in> {''MUL'', ''DIV'', ''MOV'', ''LOAD'', ''LEA'', ''STORE''}"
    using exec_keeps_carry[OF that e] by (simp add: f)
  show ?thesis using a c by blast
qed

theorem carry_overflow_flags_witness:
  "OF (F (fst (snd (step (reset\<lparr>R := (R reset)(0 := 2147483647)\<rparr>)
                        (program_of [instr ''ADD'' [Reg (GPR 0), Imm 1] 1]) createRAM))))
   \<and> CF (F (fst (snd (step (reset\<lparr>R := (R reset)(0 := 2147483647)\<rparr>)
                        (program_of [instr ''ADD'' [Reg (GPR 0), Imm 1] 1]) createRAM))))
   \<and> \<not> OF (F (fst (snd (step (reset\<lparr>R := (R reset)(0 := 65536)\<rparr>)
                        (program_of [instr ''MUL'' [Reg (GPR 0), Reg (GPR 0)] 1]) createRAM))))
   \<and> \<not> CF (F (fst (snd (step (reset\<lparr>R := (R reset)(0 := 65536)\<rparr>)
                        (program_of [instr ''MUL'' [Reg (GPR 0), Reg (GPR 0)] 1]) createRAM))))"
proof -
  let ?c = "reset\<lparr>R := (R reset)(0 := 2147483647)\<rparr>"
  let ?P = "program_of [instr ''ADD'' [Reg (GPR 0), Imm 1] 1]"
  let ?d = "reset\<lparr>R := (R reset)(0 := 65536)\<rparr>"
  let ?Q = "program_of [instr ''MUL'' [Reg (GPR 0), Reg (GPR 0)] 1]"
  have v: "sint (2147483647 :: 32 word) = 2147483647" "sint (65536 :: 32 word) = 65536" by simp_all
  have n: "\<not> overflows 2147483648" "\<not> overflows 4294967296" by (simp_all add: overflows_def)
  obtain c' m' where s: "step ?c ?P createRAM = (None, c', m')"
    by (simp add: step_def exec_def exec_arith_def reset_def program_of_def instr_def v n Let_def)
  obtain d' n' where t: "step ?d ?Q createRAM = (None, d', n')"
    by (simp add: step_def exec_def exec_arith_def reset_def program_of_def instr_def v n Let_def)
  have "OF (F c') \<and> CF (F c')"
    using carry_overflow_flags[where cpu="?c" and program="?P" and ram=createRAM
        and i="instr ''ADD'' [Reg (GPR 0), Imm 1] 1" and d="GPR 0" and src="Imm 1" and s=1, OF _ _ _ _ s]
    by (simp add: reset_def program_of_def instr_def exactResult_def inInt32_def v)
  moreover have "\<not> OF (F d') \<and> \<not> CF (F d')"
    using carry_overflow_flags[where cpu="?d" and program="?Q" and ram=createRAM
        and i="instr ''MUL'' [Reg (GPR 0), Reg (GPR 0)] 1", OF _ _ _ _ t]
    by (simp add: reset_def program_of_def instr_def)
  ultimately show ?thesis by (simp add: s t)
qed

text \<open>
  Beyond \<open>2 ^ 53\<close> the product of \<^verbatim>\<open>MUL\<close> is rounded before it is stored: \<open>2147483647\<close> squared
  is stored as 0 in a general register, where the exact product reduced to 32 bits is 1.
\<close>

lemma mul_rounding_example:
  "ToInt32 (dbl (2147483647 * 2147483647)) = 0 \<and> ToInt32 (2147483647 * 2147483647) = 1"
  by code_simp


subsection \<open>The state after a failed step\<close>

lemma exec_MOV_throw: "exec_MOV ops cpu program ram = (Throw m, c, mm) \<Longrightarrow> c = cpu \<and> mm = ram"
  by (auto simp: exec_MOV_def split: if_splits sum.splits Operand.splits)

lemma exec_LOAD_throw: "exec_LOAD ops cpu program ram = (Throw m, c, mm) \<Longrightarrow> c = cpu \<and> mm = ram"
  by (auto simp: exec_LOAD_def split: if_splits sum.splits Operand.splits)

lemma exec_STORE_throw: "exec_STORE ops cpu program ram = (Throw m, c, mm) \<Longrightarrow> c = cpu \<and> mm = ram"
  by (auto simp: exec_STORE_def split: if_splits sum.splits option.splits)

lemma exec_arith_throw:
  "exec_arith name f fo ops cpu program ram = (Throw m, c, mm) \<Longrightarrow> c = cpu \<and> mm = ram"
  by (auto simp: exec_arith_def Let_def split: if_splits sum.splits Operand.splits)

lemma exec_DIV_throw:
  "exec_DIV ops cpu program ram = (Throw m, c, mm) \<Longrightarrow>
   mm = ram \<and> (c = cpu \<or> (m = DivisionByZero \<and> c = cpu\<lparr>F := (F cpu)\<lparr>CF := True\<rparr>\<rparr>))"
  by (auto simp: exec_DIV_def Let_def split: if_splits sum.splits Operand.splits)

lemma exec_CMP_throw: "exec_CMP ops cpu program ram = (Throw m, c, mm) \<Longrightarrow> c = cpu \<and> mm = ram"
  by (auto simp: exec_CMP_def split: if_splits sum.splits)

lemma jumpTo_throw: "jumpTo ops cpu program ram = (Throw m, c, mm) \<Longrightarrow> c = cpu \<and> mm = ram"
  by (auto simp: jumpTo_def split: list.splits sum.splits)

lemma exec_JMP_throw: "exec_JMP ops cpu program ram = (Throw m, c, mm) \<Longrightarrow> c = cpu \<and> mm = ram"
  by (auto simp: exec_JMP_def dest: jumpTo_throw split: if_splits)

lemma exec_Jcc_throw: "exec_Jcc b ops cpu program ram = (Throw m, c, mm) \<Longrightarrow> c = cpu \<and> mm = ram"
  by (auto simp: exec_Jcc_def dest: jumpTo_throw split: if_splits)

lemma exec_unary_throw:
  "exec_unary name k fo ops cpu program ram = (Throw m, c, mm) \<Longrightarrow> c = cpu \<and> mm = ram"
  by (auto simp: exec_unary_def Let_def split: if_splits Operand.splits)

lemma exec_LEA_throw: "exec_LEA ops cpu program ram = (Throw m, c, mm) \<Longrightarrow> c = cpu \<and> mm = ram"
  by (auto simp: exec_LEA_def split: if_splits sum.splits Operand.splits regidx.splits)

lemma exec_SYS_throw: "exec_SYS ops cpu program ram = (Throw m, c, mm) \<Longrightarrow> c = cpu \<and> mm = ram"
  by (auto simp: exec_SYS_def split: if_splits sum.splits option.splits)

lemma exec_RET_throw: "exec_RET ops cpu program ram = (Throw m, c, mm) \<Longrightarrow> c = cpu \<and> mm = ram"
  by (auto simp: exec_RET_def split: if_splits sum.splits)

lemma exec_PUSH_throw:
  "exec_PUSH ops cpu program ram = (Throw m, c, mm) \<Longrightarrow>
   mm = ram \<and> (c = cpu \<or> ((m = StackOverflow \<or> m = RangeError) \<and> c = cpu\<lparr>SP := dbl (SP cpu - 4)\<rparr>))"
  by (auto simp: exec_PUSH_def Let_def setInt32_def split: if_splits sum.splits)

lemma exec_CALL_throw:
  "exec_CALL ops cpu program ram = (Throw m, c, mm) \<Longrightarrow>
   mm = ram \<and> (c = cpu \<or> ((m = StackOverflow \<or> m = RangeError) \<and> c = cpu\<lparr>SP := dbl (SP cpu - 4)\<rparr>))"
  by (auto simp: exec_CALL_def Let_def setInt32_def split: if_splits sum.splits)

lemma exec_POP_throw:
  "exec_POP ops cpu program ram = (Throw m, c, mm) \<Longrightarrow>
   mm = ram \<and> (c = cpu \<or> (m = DestMustBeRegister ''POP'' \<and> c = cpu\<lparr>SP := dbl (SP cpu + 4)\<rparr>))"
  by (auto simp: exec_POP_def Let_def split: if_splits sum.splits Operand.splits)

lemma exec_throw:
  assumes "exec i cpu program ram = (Throw m, c, mm)"
  shows "mm = ram \<and>
     (c = cpu
      \<or> (op i = ''DIV'' \<and> m = DivisionByZero \<and> c = cpu\<lparr>F := (F cpu)\<lparr>CF := True\<rparr>\<rparr>)
      \<or> ((op i = ''PUSH'' \<or> op i = ''CALL'') \<and> (m = StackOverflow \<or> m = RangeError)
           \<and> c = cpu\<lparr>SP := dbl (SP cpu - 4)\<rparr>)
      \<or> (op i = ''POP'' \<and> m = DestMustBeRegister ''POP'' \<and> c = cpu\<lparr>SP := dbl (SP cpu + 4)\<rparr>))"
  using assms unfolding exec_def Let_def
  by (auto split: if_splits
      dest: exec_MOV_throw exec_LOAD_throw exec_STORE_throw exec_arith_throw exec_DIV_throw
        exec_CMP_throw exec_JMP_throw exec_Jcc_throw exec_unary_throw exec_LEA_throw exec_SYS_throw
        exec_RET_throw exec_PUSH_throw exec_CALL_throw exec_POP_throw)

text \<open>The errors of an operand: never the ones raised after a change of the state.\<close>

lemma resolveOperand_error:
  assumes "resolveOperand x cpu ram labs = Inl e"
  shows "e \<noteq> DivisionByZero \<and> e \<noteq> StackOverflow \<and> (length ram = 4096 \<longrightarrow> e \<noteq> RangeError)"
  using assms
  by (cases x)
     (auto simp: lookupLabel_def readMem_def getInt32_def outOfBounds_def toIndex_def RAM_SIZE_def
        Let_def split: option.splits if_splits sum.splits)

lemma exec_DIV_error:
  assumes "exec_DIV ops cpu program ram = (Throw m, c, mm)"
  shows "c = (if m = DivisionByZero then cpu\<lparr>F := (F cpu)\<lparr>CF := True\<rparr>\<rparr> else cpu)"
  using assms
  by (auto simp: exec_DIV_def Let_def dest: resolveOperand_error
      split: if_splits sum.splits Operand.splits)

lemma exec_PUSH_error:
  assumes "exec_PUSH ops cpu program ram = (Throw m, c, mm)" and "length ram = 4096"
  shows "c = (if m = StackOverflow \<or> m = RangeError then cpu\<lparr>SP := dbl (SP cpu - 4)\<rparr> else cpu)"
  using assms
  by (auto simp: exec_PUSH_def Let_def setInt32_def dest: resolveOperand_error
      split: if_splits sum.splits)

lemma exec_CALL_error:
  assumes "exec_CALL ops cpu program ram = (Throw m, c, mm)" and "length ram = 4096"
  shows "c = (if m = StackOverflow \<or> m = RangeError then cpu\<lparr>SP := dbl (SP cpu - 4)\<rparr> else cpu)"
  using assms
  by (auto simp: exec_CALL_def Let_def setInt32_def dest: resolveOperand_error
      split: if_splits sum.splits)

lemma exec_POP_error:
  assumes "exec_POP ops cpu program ram = (Throw m, c, mm)"
  shows "c = (if m = DestMustBeRegister ''POP'' then cpu\<lparr>SP := dbl (SP cpu + 4)\<rparr> else cpu)"
  using assms
  by (auto simp: exec_POP_def Let_def getInt32_def split: if_splits sum.splits Operand.splits)

lemma exec_error_state:
  assumes "exec i cpu program ram = (Throw m, c, mm)" and "length ram = 4096"
  shows "mm = ram \<and>
     c = (if op i = ''DIV'' \<and> m = DivisionByZero then cpu\<lparr>F := (F cpu)\<lparr>CF := True\<rparr>\<rparr>
          else if (op i = ''PUSH'' \<or> op i = ''CALL'') \<and> (m = StackOverflow \<or> m = RangeError)
            then cpu\<lparr>SP := dbl (SP cpu - 4)\<rparr>
          else if op i = ''POP'' \<and> m = DestMustBeRegister ''POP''
            then cpu\<lparr>SP := dbl (SP cpu + 4)\<rparr>
          else cpu)"
proof -
  have mm: "mm = ram" using exec_throw[OF assms(1)] by simp
  consider "op i = ''DIV''" | "op i = ''PUSH''" | "op i = ''CALL''" | "op i = ''POP''"
    | "op i \<noteq> ''DIV''" "op i \<noteq> ''PUSH''" "op i \<noteq> ''CALL''" "op i \<noteq> ''POP''"
    by blast
  then show ?thesis
  proof cases
    case 1
    then show ?thesis
      using assms(1) mm exec_DIV_error[of "operands i" cpu program ram m c mm]
      by (simp add: exec_arith_ops)
  next
    case 2
    then show ?thesis
      using assms mm exec_PUSH_error[of "operands i" cpu program ram m c mm]
      by (simp add: exec_PUSH_eq)
  next
    case 3
    then show ?thesis
      using assms mm exec_CALL_error[of "operands i" cpu program ram m c mm]
      by (simp add: exec_CALL_eq)
  next
    case 4
    then show ?thesis
      using assms(1) mm exec_POP_error[of "operands i" cpu program ram m c mm]
      by (simp add: exec_POP_eq)
  next
    case 5
    then show ?thesis using exec_throw[OF assms(1)] by simp
  qed
qed

lemma step_AsmError_running:
  assumes "step cpu program ram = (Some (AsmError l m), cpu', ram')"
  shows "\<not> halted cpu \<and> 0 \<le> IP cpu \<and> IP cpu < int (length (ast program))"
  using assms by (auto simp: step_def split: if_splits)

lemma push_at_zero:
  "step (reset\<lparr>SP := 0\<rparr>) (program_of [instr ''PUSH'' [Imm 7] 1]) createRAM
     = (Some (AsmError 1 StackOverflow), reset\<lparr>SP := - 4\<rparr>, createRAM)"
  by (simp add: step_def exec_def exec_PUSH_def reset_def program_of_def instr_def dbl_id Let_def)

lemma pop_to_immediate:
  "step (reset\<lparr>SP := 4088\<rparr>) (program_of [instr ''POP'' [Imm 5] 1]) createRAM
     = (Some (AsmError 1 (DestMustBeRegister ''POP'')), reset\<lparr>SP := 4092\<rparr>, createRAM)"
  by (simp add: step_def exec_def exec_POP_def reset_def program_of_def instr_def dbl_id Let_def
      RAM_SIZE_def getInt32_def createRAM_def)

lemma div_by_zero:
  "step reset (program_of [instr ''DIV'' [Reg (GPR 0), Imm 0] 1]) createRAM
     = (Some (AsmError 1 DivisionByZero), reset\<lparr>F := (F reset)\<lparr>CF := True\<rparr>\<rparr>, createRAM)"
  by (simp add: step_def exec_def exec_DIV_def reset_def program_of_def instr_def Let_def)

lemma call_at_zero:
  "step (reset\<lparr>SP := 0\<rparr>) (program_of [instr ''CALL'' [Imm 0] 1]) createRAM
     = (Some (AsmError 1 StackOverflow), reset\<lparr>SP := - 4\<rparr>, createRAM)"
  by (simp add: step_def exec_def exec_CALL_def reset_def program_of_def instr_def dbl_id Let_def)

text \<open>
  C7. The claim: whenever \<^verbatim>\<open>step\<close> raises an \<^verbatim>\<open>AsmError\<close>, the registers, SP, BP, IP, the flags,
  \<^verbatim>\<open>halted\<close> and the memory are as before the call, but for the effect the instruction defines
  (the carry flag of a division by zero). \<^verbatim>\<open>PUSH\<close> and \<^verbatim>\<open>CALL\<close> decrement the stack pointer
  before they check it: at \<open>SP = 0\<close> the step fails with \<^verbatim>\<open>Stack overflow\<close> and leaves \<open>SP = - 4\<close>.
  \<^verbatim>\<open>POP\<close> into an operand that is no register fails after it has moved the stack pointer up
  by 4.
\<close>

theorem step_not_atomic_counterexample:
  "step (reset\<lparr>SP := 0\<rparr>) (program_of [instr ''PUSH'' [Imm 7] 1]) createRAM
     = (Some (AsmError 1 StackOverflow), reset\<lparr>SP := - 4\<rparr>, createRAM)
   \<and> step (reset\<lparr>SP := 0\<rparr>) (program_of [instr ''CALL'' [Imm 0] 1]) createRAM
     = (Some (AsmError 1 StackOverflow), reset\<lparr>SP := - 4\<rparr>, createRAM)
   \<and> SP (reset\<lparr>SP := - 4\<rparr>) \<noteq> SP (reset\<lparr>SP := 0\<rparr>)
   \<and> step (reset\<lparr>SP := 4088\<rparr>) (program_of [instr ''POP'' [Imm 5] 1]) createRAM
     = (Some (AsmError 1 (DestMustBeRegister ''POP'')), reset\<lparr>SP := 4092\<rparr>, createRAM)
   \<and> SP (reset\<lparr>SP := 4092\<rparr>) \<noteq> SP (reset\<lparr>SP := 4088\<rparr>)"
  using push_at_zero call_at_zero pop_to_immediate by simp

text \<open>
  C7, amended. Whenever \<^verbatim>\<open>step\<close> raises an \<^verbatim>\<open>AsmError\<close> on a memory of 4096 bytes, the memory
  is as before the call, and the CPU state is the state before the call with exactly one
  change in three cases and none in all others: when \<^verbatim>\<open>DIV\<close> fails with \<^verbatim>\<open>Division by zero\<close>, the
  carry flag is set; when \<^verbatim>\<open>PUSH\<close> or \<^verbatim>\<open>CALL\<close> fails on its stack slot, with \<^verbatim>\<open>Stack overflow\<close> or
  the RangeError of the DataView, the stack pointer is the result of \<^verbatim>\<open>cpu.SP -= 4\<close>; when \<^verbatim>\<open>POP\<close>
  fails because its operand is not a register, the stack pointer is the result of
  \<^verbatim>\<open>cpu.SP += 4\<close>.
\<close>

theorem step_error_state:
  assumes "step cpu program ram = (Some (AsmError l m), cpu', ram')"
    and "length ram = 4096"
    and "ast program ! nat (IP cpu) = i"
  shows "ram' = ram \<and>
     cpu' = (if op i = ''DIV'' \<and> m = DivisionByZero then cpu\<lparr>F := (F cpu)\<lparr>CF := True\<rparr>\<rparr>
             else if (op i = ''PUSH'' \<or> op i = ''CALL'') \<and> (m = StackOverflow \<or> m = RangeError)
               then cpu\<lparr>SP := dbl (SP cpu - 4)\<rparr>
             else if op i = ''POP'' \<and> m = DestMustBeRegister ''POP''
               then cpu\<lparr>SP := dbl (SP cpu + 4)\<rparr>
             else cpu)"
proof -
  have r: "\<not> halted cpu" "0 \<le> IP cpu" "IP cpu < int (length (ast program))"
    using step_AsmError_running[OF assms(1)] by simp_all
  have "exec i cpu program ram = (Throw m, cpu', ram')"
    using assms(1,3) by (simp add: step_throw_iff[OF r])
  then show ?thesis using assms(2) by (rule exec_error_state)
qed

theorem step_error_state_witness:
  "length createRAM = 4096
   \<and> fst (snd (step reset (program_of [instr ''DIV'' [Reg (GPR 0), Imm 0] 1]) createRAM))
       = reset\<lparr>F := (F reset)\<lparr>CF := True\<rparr>\<rparr>
   \<and> fst (snd (step (reset\<lparr>SP := 0\<rparr>) (program_of [instr ''PUSH'' [Imm 7] 1]) createRAM))
       = reset\<lparr>SP := - 4\<rparr>
   \<and> fst (snd (step (reset\<lparr>SP := 0\<rparr>) (program_of [instr ''CALL'' [Imm 0] 1]) createRAM))
       = reset\<lparr>SP := - 4\<rparr>
   \<and> fst (snd (step (reset\<lparr>SP := 4088\<rparr>) (program_of [instr ''POP'' [Imm 5] 1]) createRAM))
       = reset\<lparr>SP := 4092\<rparr>"
proof -
  have len: "length createRAM = 4096" by (simp add: createRAM_def)
  have a: "reset\<lparr>F := (F reset)\<lparr>CF := True\<rparr>\<rparr> = reset\<lparr>F := (F reset)\<lparr>CF := True\<rparr>\<rparr>
      \<and> createRAM = createRAM"
    using step_error_state[OF div_by_zero len, of "instr ''DIV'' [Reg (GPR 0), Imm 0] 1"]
    by simp
  have b: "reset\<lparr>SP := - 4\<rparr> = reset\<lparr>SP := 0\<rparr>\<lparr>SP := dbl (SP (reset\<lparr>SP := 0\<rparr>) - 4)\<rparr>"
    using step_error_state[OF push_at_zero len, of "instr ''PUSH'' [Imm 7] 1"]
    by (simp add: program_of_def instr_def reset_def)
  have c: "reset\<lparr>SP := - 4\<rparr> = reset\<lparr>SP := 0\<rparr>\<lparr>SP := dbl (SP (reset\<lparr>SP := 0\<rparr>) - 4)\<rparr>"
    using step_error_state[OF call_at_zero len, of "instr ''CALL'' [Imm 0] 1"]
    by (simp add: program_of_def instr_def reset_def)
  have d: "reset\<lparr>SP := 4092\<rparr> = reset\<lparr>SP := 4088\<rparr>\<lparr>SP := dbl (SP (reset\<lparr>SP := 4088\<rparr>) + 4)\<rparr>"
    using step_error_state[OF pop_to_immediate len, of "instr ''POP'' [Imm 5] 1"]
    by (simp add: program_of_def instr_def reset_def)
  show ?thesis
    using a b c d len by (simp add: div_by_zero push_at_zero call_at_zero pop_to_immediate)
qed

subsection \<open>Running to a breakpoint\<close>

lemma stepN_Suc_None:
  "step cpu program ram = (None, c, m) \<Longrightarrow> stepN (Suc k) cpu program ram = stepN k c program m"
  by simp

lemma run_loop_props:
  "run_loop cpu program ram maxSteps B s = (e, cpu', ram', n) \<Longrightarrow>
   s \<le> n
   \<and> (\<forall>k < nat (n - s). \<exists>c m. stepN k cpu program ram = (None, c, m) \<and> \<not> halted c \<and> IP c \<notin> B)
   \<and> (e = None \<longrightarrow> stepN (nat (n - s)) cpu program ram = (None, cpu', ram')
                   \<and> (halted cpu' \<or> maxSteps \<le> n \<or> IP cpu' \<in> B))
   \<and> (\<forall>x. e = Some x \<longrightarrow>
         (\<exists>c m. stepN (nat (n - s)) cpu program ram = (None, c, m) \<and> \<not> halted c \<and> IP c \<notin> B
                \<and> step c program m = (Some x, cpu', ram')))"
proof (induction cpu program ram maxSteps B s rule: run_loop.induct)
  case (1 cpu program ram maxSteps B s)
  show ?case
  proof (cases "\<not> halted cpu \<and> s < maxSteps")
    case False
    then have "run_loop cpu program ram maxSteps B s = (None, cpu, ram, s)"
      by (subst run_loop.simps) auto
    with "1.prems" False show ?thesis by auto
  next
    case True
    note run = this
    show ?thesis
    proof (cases "IP cpu \<in> B")
      case True
      then have "run_loop cpu program ram maxSteps B s = (None, cpu, ram, s)"
        using run by (subst run_loop.simps) simp
      with "1.prems" True show ?thesis by auto
    next
      case False
      note nb = this
      obtain r c1 m1 where st: "step cpu program ram = (r, c1, m1)"
        by (metis prod_cases3)
      show ?thesis
      proof (cases r)
        case (Some x)
        then have "run_loop cpu program ram maxSteps B s = (Some x, c1, m1, s)"
          using run nb st by (subst run_loop.simps) simp
        with "1.prems" run nb st Some show ?thesis by auto
      next
        case None
        then have eq: "run_loop cpu program ram maxSteps B s = run_loop c1 program m1 maxSteps B (s + 1)"
          using run nb st by (subst run_loop.simps) simp
        have st': "step cpu program ram = (None, c1, m1)" using st None by simp
        have ih: "s + 1 \<le> n
           \<and> (\<forall>k < nat (n - (s + 1)). \<exists>c m. stepN k c1 program m1 = (None, c, m) \<and> \<not> halted c \<and> IP c \<notin> B)
           \<and> (e = None \<longrightarrow> stepN (nat (n - (s + 1))) c1 program m1 = (None, cpu', ram')
                   \<and> (halted cpu' \<or> maxSteps \<le> n \<or> IP cpu' \<in> B))
           \<and> (\<forall>x. e = Some x \<longrightarrow>
                 (\<exists>c m. stepN (nat (n - (s + 1))) c1 program m1 = (None, c, m) \<and> \<not> halted c \<and> IP c \<notin> B
                        \<and> step c program m = (Some x, cpu', ram')))"
          using "1.IH"[OF run nb st[symmetric] None refl] "1.prems" eq by simp
        then have n: "nat (n - s) = Suc (nat (n - (s + 1)))" by linarith
        have tr: "\<exists>c m. stepN k cpu program ram = (None, c, m) \<and> \<not> halted c \<and> IP c \<notin> B"
          if "k < nat (n - s)" for k
        proof (cases k)
          case 0 then show ?thesis using run nb by simp
        next
          case (Suc j)
          then have "j < nat (n - (s + 1))" using that n by simp
          then show ?thesis using ih Suc st' by simp
        qed
        show ?thesis
          using ih tr unfolding n stepN_Suc_None[OF st'] by auto
      qed
    qed
  qed
qed


lemma stepN_Suc:
  "stepN (Suc k) cpu program ram =
     (case stepN k cpu program ram of
        (None, c, m) \<Rightarrow> step c program m
      | (Some e, c, m) \<Rightarrow> (Some e, c, m))"
proof (induction k arbitrary: cpu ram)
  case 0
  show ?case by (auto split: prod.splits option.splits)
next
  case (Suc k)
  show ?case
  proof (cases "step cpu program ram")
    case (fields r c m)
    show ?thesis
    proof (cases r)
      case None
      then have "stepN (Suc (Suc k)) cpu program ram = stepN (Suc k) c program m"
        using fields by simp
      also have "\<dots> = (case stepN k c program m of
            (None, c, m) \<Rightarrow> step c program m
          | (Some e, c, m) \<Rightarrow> (Some e, c, m))"
        by (rule Suc.IH)
      also have "stepN k c program m = stepN (Suc k) cpu program ram"
        using fields None by simp
      finally show ?thesis .
    next
      case (Some e)
      then show ?thesis using fields by simp
    qed
  qed
qed

lemma run_stops_at_first_breakpoint:
  assumes p2: "\<forall>j < nat n. \<exists>c m. stepN j cpu program ram = (None, c, m) \<and> \<not> halted c \<and> IP c \<notin> B"
    and p3: "e = None \<longrightarrow> stepN (nat n) cpu program ram = (None, cpu', ram')
                   \<and> (halted cpu' \<or> maxSteps \<le> n \<or> IP cpu' \<in> B)"
    and p4: "\<forall>x. e = Some x \<longrightarrow>
         (\<exists>c m. stepN (nat n) cpu program ram = (None, c, m) \<and> \<not> halted c \<and> IP c \<notin> B
                \<and> step c program m = (Some x, cpu', ram'))"
    and n0: "0 \<le> n"
    and k: "int k < maxSteps" "stepN k cpu program ram = (None, c, m)" "\<not> halted c" "IP c \<in> B"
    and before: "\<forall>j<k. \<exists>cj mj. stepN j cpu program ram = (None, cj, mj) \<and> \<not> halted cj \<and> IP cj \<notin> B"
  shows "e = None \<and> n = int k \<and> cpu' = c \<and> ram' = m"
proof -
  have le: "nat n \<le> k"
  proof (rule ccontr)
    assume "\<not> nat n \<le> k"
    then have "k < nat n" by simp
    with p2 k(2,4) show False by auto
  qed
  have eq: "nat n = k"
  proof (rule ccontr)
    assume "nat n \<noteq> k"
    then have lt: "nat n < k" using le by simp
    then obtain cj mj where j: "stepN (nat n) cpu program ram = (None, cj, mj)" "\<not> halted cj" "IP cj \<notin> B"
      using before by blast
    have nk: "n < maxSteps" using lt k(1) n0 by linarith
    show False
    proof (cases e)
      case None
      with p3 j nk show False by auto
    next
      case (Some x)
      with p4 j have "step cj program mj = (Some x, cpu', ram')" by auto
      then have s: "stepN (Suc (nat n)) cpu program ram = (Some x, cpu', ram')"
        by (subst stepN_Suc) (simp add: j(1))
      have "\<exists>c' m'. stepN (Suc (nat n)) cpu program ram = (None, c', m')"
      proof (cases "Suc (nat n) = k")
        case True then show ?thesis using k(2) by auto
      next
        case False
        then have "Suc (nat n) < k" using lt by simp
        then show ?thesis using before by blast
      qed
      with s show False by simp
    qed
  qed
  show ?thesis
  proof (cases e)
    case None
    with p3 eq k(2) n0 show ?thesis by auto
  next
    case (Some x)
    with p4 eq k(2,4) show ?thesis by auto
  qed
qed

lemma run_nop_breakpoint:
  "run reset (program_of [instr ''NOP'' [] 1, instr ''NOP'' [] 2, instr ''HALT'' [] 3]) createRAM
       10000 {1} = (None, reset\<lparr>IP := 1\<rparr>, createRAM, 1)"
proof -
  let ?P = "program_of [instr ''NOP'' [] 1, instr ''NOP'' [] 2, instr ''HALT'' [] 3]"
  have "run_loop reset ?P createRAM 10000 {1} 0 = run_loop (reset\<lparr>IP := 1\<rparr>) ?P createRAM 10000 {1} 1"
    by (subst run_loop.simps)
       (simp add: step_def exec_def reset_def program_of_def instr_def Let_def)
  also have "\<dots> = (None, reset\<lparr>IP := 1\<rparr>, createRAM, 1)"
    by (subst run_loop.simps) (simp add: reset_def)
  finally show ?thesis by (simp add: run_def)
qed

text \<open>
  C9. Let \<^verbatim>\<open>run\<close> with the breakpoint set \<open>B\<close> end after \<open>n\<close> completed steps. Each of the steps
  it took, the failing one included, started from a state that was not halted and whose
  instruction pointer was not in \<open>B\<close>. If \<^verbatim>\<open>run\<close> returns, its final state is the state after
  these \<open>n\<close> steps, and it is halted, or \<open>n\<close> has reached \<^verbatim>\<open>maxSteps\<close>, or its instruction
  pointer is in \<open>B\<close>. And if the states of the execution reach, after \<open>k < maxSteps\<close> steps
  without a halt, an error or a breakpoint, a state not halted whose instruction pointer
  is in \<open>B\<close>, then \<^verbatim>\<open>run\<close> returns exactly that state with the count \<open>k\<close>: the instruction at the
  breakpoint is not executed.
\<close>

theorem run_breakpoints:
  assumes "run cpu program ram maxSteps B = (e, cpu', ram', n)"
  shows "0 \<le> n
     \<and> (\<forall>k < nat n. \<exists>c m. stepN k cpu program ram = (None, c, m) \<and> \<not> halted c \<and> IP c \<notin> B)
     \<and> (e = None \<longrightarrow> stepN (nat n) cpu program ram = (None, cpu', ram')
                     \<and> (halted cpu' \<or> maxSteps \<le> n \<or> IP cpu' \<in> B))
     \<and> (\<forall>x. e = Some x \<longrightarrow>
           (\<exists>c m. stepN (nat n) cpu program ram = (None, c, m) \<and> \<not> halted c \<and> IP c \<notin> B
                  \<and> step c program m = (Some x, cpu', ram')))
     \<and> (\<forall>k c m. int k < maxSteps \<and> stepN k cpu program ram = (None, c, m) \<and> \<not> halted c \<and> IP c \<in> B
           \<and> (\<forall>j<k. \<exists>cj mj. stepN j cpu program ram = (None, cj, mj) \<and> \<not> halted cj \<and> IP cj \<notin> B)
           \<longrightarrow> e = None \<and> n = int k \<and> cpu' = c \<and> ram' = m)"
proof -
  have p: "0 \<le> n"
    "\<forall>k < nat n. \<exists>c m. stepN k cpu program ram = (None, c, m) \<and> \<not> halted c \<and> IP c \<notin> B"
    "e = None \<longrightarrow> stepN (nat n) cpu program ram = (None, cpu', ram')
                     \<and> (halted cpu' \<or> maxSteps \<le> n \<or> IP cpu' \<in> B)"
    "\<forall>x. e = Some x \<longrightarrow>
           (\<exists>c m. stepN (nat n) cpu program ram = (None, c, m) \<and> \<not> halted c \<and> IP c \<notin> B
                  \<and> step c program m = (Some x, cpu', ram'))"
    using run_loop_props[of cpu program ram maxSteps B 0 e cpu' ram' n] assms
    by (simp_all add: run_def)
  have "e = None \<and> n = int k \<and> cpu' = c \<and> ram' = m"
    if "int k < maxSteps \<and> stepN k cpu program ram = (None, c, m) \<and> \<not> halted c \<and> IP c \<in> B
           \<and> (\<forall>j<k. \<exists>cj mj. stepN j cpu program ram = (None, cj, mj) \<and> \<not> halted cj \<and> IP cj \<notin> B)"
    for k c m
    using run_stops_at_first_breakpoint[OF p(2,3,4,1), of k c m] that by blast
  with p show ?thesis by blast
qed

theorem run_breakpoints_witness:
  "run reset (program_of [instr ''NOP'' [] 1, instr ''NOP'' [] 2, instr ''HALT'' [] 3]) createRAM
       10000 {1} = (None, reset\<lparr>IP := 1\<rparr>, createRAM, 1)
   \<and> stepN (nat 1) reset (program_of [instr ''NOP'' [] 1, instr ''NOP'' [] 2, instr ''HALT'' [] 3])
        createRAM = (None, reset\<lparr>IP := 1\<rparr>, createRAM)
   \<and> IP (reset\<lparr>IP := 1\<rparr>) \<in> {1 :: int}"
  using run_breakpoints[OF run_nop_breakpoint] run_nop_breakpoint
  by (simp add: reset_def)

subsection \<open>The two passes of the assembler\<close>

text \<open>
  C1. The claim: pass 2 skips every line that pass 1 handled as a label or a directive, so
  the i-th instruction skeleton receives the operands of its own line, and a line
  \<^verbatim>\<open>name: .WORD 1, 2, 3\<close> contributes no operands. Pass 1 takes every line with a colon as a
  label definition; pass 2 skips a line only when it ends with the colon (or starts with a
  dot). In the first source below, which \<^verbatim>\<open>assemble\<close> accepts, the skeleton of \<^verbatim>\<open>MOV R0, #7\<close>
  receives the tokens of the data line, and the operands of \<^verbatim>\<open>MOV\<close> go to the next skeleton.
  On the second, the syntax example of the README with no comments, \<^verbatim>\<open>assemble\<close> runs out of
  skeletons and throws a TypeError.
\<close>

theorem assemble_data_line_operands:
  "map_sum id ast
     (assemble (unlines [''.DATA'', ''arr: .WORD 1, 2, 3'', ''.TEXT'', ''MOV R0, #7'', ''.END'']))
     = Inr [\<lparr>op = ''MOV'', operands = [Label ''.WORD'', Imm 1, Imm 2, Imm 3], line = 4,
              source = ''MOV R0, #7''\<rparr>,
            \<lparr>op = ''.END'', operands = [Reg (GPR 0), Imm 7], line = 5, source = ''.END''\<rparr>]
   \<and> assemble (unlines [''.DATA'', ''numbers: .WORD 1, 2, 3, 4, 5'', ''count: .WORD 5'', '''',
                        ''.TEXT'', ''start:'', ''    LEA R0, numbers'', ''    HALT''])
     = Inl JsTypeError"
  by code_simp

end
